theory Spec2Isabelle
  imports Complex_Main
begin

section \<open>Python values shared by both modules\<close>

text \<open>
  The exceptions that the modelled code can raise.  The \<open>RuntimeError\<close>s of
  \<open>ERANataf.py\<close> are told apart by their message, one constructor per message;
  \<open>RootNotConverged\<close> is the \<open>RuntimeError\<close> that SciPy's \<open>brentq\<close> raises; the
  remaining constructors are the built-in exceptions of Python and NumPy that reach the
  caller of the modelled functions.
\<close>

datatype error =
    InvalidMoments                \<comment> \<open>'The marginal distributions need to have finite mean and variance'\<close>
  | NotPositiveDefinite           \<comment> \<open>'The given correlation matrix is not positive definite ...'\<close>
  | NotSymmetric                  \<comment> \<open>'The given correlation matrix is not symmetric ...'\<close>
  | DiagonalNotOne                \<comment> \<open>'Not all diagonal entries of the given correlation matrix are equal to one ...'\<close>
  | NatafNoConvergence            \<comment> \<open>'brentq and fsolve could not converge to a solution ...'\<close>
  | TransformedNotPositiveDefinite \<comment> \<open>'Transformed correlation matrix is not positive definite ...'\<close>
  | DiscreteMarginal              \<comment> \<open>'At least one of the marginal distributions is a discrete distribution, ...'\<close>
  | TooManyDimensions             \<comment> \<open>'X must have not more than two dimensions.'\<close>
  | WrongShape                    \<comment> \<open>'X must be an array of size [n,d], ...'\<close>
  | RootNotConverged              \<comment> \<open>'Failed to converge after 100 iterations.'\<close>
  | IndexError
  | ValueError
  | LinAlgError
  | ZeroDivisionError

text \<open>Sequencing of computations that may raise: the first exception ends the run.\<close>

definition then_do :: "error + 'a \<Rightarrow> ('a \<Rightarrow> error + 'b) \<Rightarrow> error + 'b" where
  "then_do r f = (case r of Inl e \<Rightarrow> Inl e | Inr v \<Rightarrow> f v)"

subsection \<open>Floats\<close>

text \<open>
  A Python float: a finite double, an infinity or \<open>nan\<close>.  The sign of a zero is not
  kept; no modelled statement tells the two zeros apart.
\<close>

datatype pyfloat = Fin real | PInf | NInf | NaN

text \<open>
  The rounding of IEEE 754 binary64, to nearest with ties to even.  \<open>rne q\<close> is the
  integer nearest to \<open>q\<close>.  \<open>fl x\<close> is the float that an operation with the exact
  result \<open>x\<close> returns: \<open>x\<close> is scaled so that its significand has 53 bits, or to the
  multiples of 2^-1074 below the normal range, rounded there, and replaced by an
  infinity when the rounded value is out of range.
\<close>

definition rne :: "real \<Rightarrow> int" where
  "rne q = (let f = \<lfloor>q\<rfloor>; d = q - of_int f
            in if d < 1 / 2 then f else if 1 / 2 < d then f + 1
               else if even f then f else f + 1)"

definition fl :: "real \<Rightarrow> pyfloat" where
  "fl x = (if x = 0 then Fin 0
           else let e = max (\<lfloor>log 2 \<bar>x\<bar>\<rfloor> - 52) (- 1074);
                    y = of_int (rne (x / 2 powr of_int e)) * 2 powr of_int e
                in if 2 ^ 1024 \<le> \<bar>y\<bar> then (if 0 < x then PInf else NInf) else Fin y)"

text \<open>The sign of a float: 1, -1, or 0 for a zero and for \<open>nan\<close>.\<close>

definition pf_sign :: "pyfloat \<Rightarrow> int" where
  "pf_sign p = (case p of Fin a \<Rightarrow> (if 0 < a then 1 else if a < 0 then - 1 else 0)
                        | PInf \<Rightarrow> 1 | NInf \<Rightarrow> - 1 | NaN \<Rightarrow> 0)"

text \<open>\<open>- a\<close>, \<open>a + b\<close>, \<open>a - b\<close> and \<open>a * b\<close> on floats; none of them raises.\<close>

fun pf_neg :: "pyfloat \<Rightarrow> pyfloat" where
  "pf_neg (Fin a) = Fin (- a)"
| "pf_neg PInf = NInf"
| "pf_neg NInf = PInf"
| "pf_neg NaN = NaN"

fun pf_add :: "pyfloat \<Rightarrow> pyfloat \<Rightarrow> pyfloat" where
  "pf_add (Fin a) (Fin b) = fl (a + b)"
| "pf_add NaN _ = NaN"
| "pf_add _ NaN = NaN"
| "pf_add PInf NInf = NaN"
| "pf_add NInf PInf = NaN"
| "pf_add PInf _ = PInf"
| "pf_add _ PInf = PInf"
| "pf_add NInf _ = NInf"
| "pf_add _ NInf = NInf"

definition pf_sub :: "pyfloat \<Rightarrow> pyfloat \<Rightarrow> pyfloat" where
  "pf_sub a b = pf_add a (pf_neg b)"

fun pf_mul :: "pyfloat \<Rightarrow> pyfloat \<Rightarrow> pyfloat" where
  "pf_mul (Fin a) (Fin b) = fl (a * b)"
| "pf_mul NaN _ = NaN"
| "pf_mul _ NaN = NaN"
| "pf_mul a b = (if pf_sign a * pf_sign b = 0 then NaN
                 else if 0 < pf_sign a * pf_sign b then PInf else NInf)"

text \<open>
  \<open>a / b\<close> on Python floats: a divisor of zero raises \<open>ZeroDivisionError\<close>, whatever
  the dividend; otherwise the quotient is rounded, a finite float over an infinity is
  zero, and an infinity over an infinity is \<open>nan\<close>.
\<close>

fun pf_quot :: "pyfloat \<Rightarrow> pyfloat \<Rightarrow> pyfloat" where
  "pf_quot (Fin a) (Fin b) = fl (a / b)"
| "pf_quot NaN _ = NaN"
| "pf_quot _ NaN = NaN"
| "pf_quot (Fin a) _ = Fin 0"
| "pf_quot a (Fin b) = (if 0 < pf_sign a * pf_sign (Fin b) then PInf else NInf)"
| "pf_quot _ _ = NaN"

definition pf_div :: "pyfloat \<Rightarrow> pyfloat \<Rightarrow> error + pyfloat" where
  "pf_div a b = (if b = Fin 0 then Inl ZeroDivisionError else Inr (pf_quot a b))"

text \<open>The comparison \<open>p <= 0\<close>: false for \<open>nan\<close>.\<close>

definition pf_le_zero :: "pyfloat \<Rightarrow> bool" where
  "pf_le_zero p = (case p of Fin a \<Rightarrow> a \<le> 0 | NInf \<Rightarrow> True | _ \<Rightarrow> False)"

text \<open>
  \<open>np.log\<close>.  It returns \<open>-inf\<close> at zero, \<open>nan\<close> below zero and \<open>inf\<close> at \<open>inf\<close>, and
  never raises.  At a finite positive double it returns a finite double close to the
  logarithm; that value is taken from the parameter \<open>lg\<close>, as the library gives it.
\<close>

definition np_log :: "(real \<Rightarrow> real) \<Rightarrow> pyfloat \<Rightarrow> pyfloat" where
  "np_log lg p =
     (case p of
        Fin y \<Rightarrow> (if 0 < y then Fin (lg y) else if y = 0 then NInf else NaN)
      | PInf \<Rightarrow> PInf
      | NInf \<Rightarrow> NaN
      | NaN \<Rightarrow> NaN)"

text \<open>\<open>np.pi\<close>, the double nearest to the number pi.\<close>

definition np_pi :: real where
  "np_pi = 884279719003555 / 2 ^ 48"


section \<open>Marginal distributions of \<open>UCSD_UQ/pdfs.py\<close>\<close>

text \<open>
  The parameters of \<open>Uniform\<close>, \<open>Halfnormal\<close> and \<open>TrunNormal\<close> and the point \<open>x\<close> of
  \<open>log_pdf_eval\<close> are finite Python floats, written as the reals they stand for.
\<close>

subsection \<open>class Uniform\<close>

record Uniform =
  lower :: real
  upper :: real

text \<open>\<open>Uniform.__init__\<close> stores its two arguments; it has no statement that can raise.\<close>

definition Uniform_init :: "real \<Rightarrow> real \<Rightarrow> error + Uniform" where
  "Uniform_init lo up = Inr \<lparr>lower = lo, upper = up\<rparr>"

text \<open>
  \<open>Uniform.log_pdf_eval\<close>.  The two differences and their product are rounded, so the
  product of two small differences can be zero.  The quotient
  \<open>1 / (self.upper - self.lower)\<close> raises on a zero divisor.
\<close>

definition Uniform_log_pdf_eval :: "(real \<Rightarrow> real) \<Rightarrow> Uniform \<Rightarrow> real \<Rightarrow> error + pyfloat" where
  "Uniform_log_pdf_eval lg self x =
     (if pf_le_zero (pf_mul (pf_sub (Fin x) (Fin (upper self))) (pf_sub (Fin x) (Fin (lower self))))
      then then_do (pf_div (Fin 1) (pf_sub (Fin (upper self)) (Fin (lower self))))
             (\<lambda>q. Inr (np_log lg q))
      else Inr NInf)"

subsection \<open>class Halfnormal\<close>

record Halfnormal =
  sig :: real

definition Halfnormal_init :: "real \<Rightarrow> error + Halfnormal" where
  "Halfnormal_init s = Inr \<lparr>sig = s\<rparr>"

text \<open>
  \<open>Halfnormal.log_pdf_eval\<close>.  The only operation that can raise is the quotient
  \<open>(x * x) / (2 * self.sig * self.sig)\<close>, on a divisor that is zero after rounding.
\<close>

definition Halfnormal_log_pdf_eval ::
  "(real \<Rightarrow> real) \<Rightarrow> Halfnormal \<Rightarrow> real \<Rightarrow> error + pyfloat" where
  "Halfnormal_log_pdf_eval lg self x =
     (if x \<ge> 0
      then then_do (pf_div (pf_mul (Fin x) (Fin x))
                           (pf_mul (pf_mul (Fin 2) (Fin (sig self))) (Fin (sig self))))
             (\<lambda>q. Inr (pf_sub (pf_add (pf_neg (np_log lg (Fin (sig self))))
                                       (pf_mul (Fin (1 / 2)) (np_log lg (fl (2 / np_pi)))))
                               q))
      else Inr NInf)"

subsection \<open>class TrunNormal\<close>

text \<open>
  \<open>TrunNormal.__init__\<close> stores its four arguments, the bounds \<open>a\<close> and \<open>b\<close> among
  them.  The fields carry the prefix \<open>tn_\<close>.
\<close>

record TrunNormal =
  tn_mu :: real
  tn_sig :: real
  tn_a :: real
  tn_b :: real

definition TrunNormal_init :: "real \<Rightarrow> real \<Rightarrow> real \<Rightarrow> real \<Rightarrow> error + TrunNormal" where
  "TrunNormal_init m s lo up = Inr \<lparr>tn_mu = m, tn_sig = s, tn_a = lo, tn_b = up\<rparr>"

subsection \<open>class TruncatedExponentialDist\<close>

text \<open>
  The three arguments are any Python floats.  The frozen \<open>scipy.stats.truncexpon\<close>
  object kept in \<open>self.dist\<close> is determined by the three arguments it is built from,
  \<open>b\<close>, \<open>loc\<close> and \<open>scale\<close>, which are fields of the record; freezing a SciPy
  distribution does not validate its arguments.  The fields carry the prefix \<open>te_\<close>
  because \<open>lower\<close> and \<open>upper\<close> are fields of \<open>Uniform\<close> already.
\<close>

record TruncatedExponentialDist =
  te_lower :: pyfloat
  te_upper :: pyfloat
  te_lamda :: pyfloat
  te_scale :: pyfloat
  te_loc :: pyfloat
  te_b :: pyfloat

definition TruncatedExponentialDist_init ::
  "pyfloat \<Rightarrow> pyfloat \<Rightarrow> pyfloat \<Rightarrow> error + TruncatedExponentialDist" where
  "TruncatedExponentialDist_init la lo up =
     then_do (pf_div (Fin 1) la) (\<lambda>sc.
     then_do (pf_div (pf_sub up lo) sc) (\<lambda>b'.
       Inr \<lparr>te_lower = lo, te_upper = up, te_lamda = la, te_scale = sc, te_loc = lo,
            te_b = b'\<rparr>))"


section \<open>NumPy arrays\<close>

text \<open>
  A two-dimensional array is the list of its rows.  An array with no row is \<open>[]\<close>, so
  its number of columns reads as 0; every array that \<open>np.array(..., ndmin=2)\<close> builds
  from a list has at least one row.
\<close>

type_synonym matrix = "real list list"

definition ncols :: "matrix \<Rightarrow> nat" where
  "ncols m = (case m of [] \<Rightarrow> 0 | r # _ \<Rightarrow> length r)"

definition is_matrix :: "nat \<Rightarrow> nat \<Rightarrow> matrix \<Rightarrow> bool" where
  "is_matrix r c m = (length m = r \<and> list_all (\<lambda>row. length row = c) m)"

definition square :: "matrix \<Rightarrow> bool" where
  "square m = is_matrix (length m) (length m) m"

definition zeros :: "nat \<Rightarrow> nat \<Rightarrow> matrix" where
  "zeros r c = replicate r (replicate c 0)"

definition identity :: "nat \<Rightarrow> matrix" where
  "identity n = map (\<lambda>i. map (\<lambda>j. if i = j then 1 else 0) [0..<n]) [0..<n]"

definition col :: "matrix \<Rightarrow> nat \<Rightarrow> real list" where
  "col m j = map (\<lambda>row. row ! j) m"

definition mat_T :: "matrix \<Rightarrow> matrix" where
  "mat_T m = map (col m) [0..<ncols m]"

text \<open>\<open>m[i, j]\<close> and \<open>m[i, j] = v\<close> with non-negative indices: out of range raises.\<close>

definition get2 :: "matrix \<Rightarrow> nat \<Rightarrow> nat \<Rightarrow> error + real" where
  "get2 m i j = (if i < length m \<and> j < length (m ! i) then Inr (m ! i ! j) else Inl IndexError)"

definition set2 :: "matrix \<Rightarrow> nat \<Rightarrow> nat \<Rightarrow> real \<Rightarrow> error + matrix" where
  "set2 m i j v =
     (if i < length m \<and> j < length (m ! i) then Inr (m[i := (m ! i)[j := v]])
      else Inl IndexError)"

text \<open>
  \<open>a - b\<close> for two square arrays, with NumPy's broadcasting: equal sizes subtract
  entry by entry, an array of size 1 is stretched to the other, anything else raises.
\<close>

definition broadcast_sub :: "matrix \<Rightarrow> matrix \<Rightarrow> error + matrix" where
  "broadcast_sub a c =
     (if length a = length c then Inr (map2 (map2 (-)) a c)
      else if length a = 1 then Inr (map (map (\<lambda>y. a ! 0 ! 0 - y)) c)
      else if length c = 1 then Inr (map (map (\<lambda>x. x - c ! 0 ! 0)) a)
      else Inl ValueError)"

text \<open>The Frobenius norm of a two-dimensional array, over the reals.\<close>

definition frobenius :: "matrix \<Rightarrow> real" where
  "frobenius m = sqrt (sum_list (map (\<lambda>x. \<bar>x\<bar> ^ 2) (concat m)))"

definition mat_mul :: "matrix \<Rightarrow> matrix \<Rightarrow> matrix" where
  "mat_mul a c = map (\<lambda>row. map (\<lambda>j. sum_list (map2 (*) row (col c j))) [0..<ncols c]) a"


section \<open>The joint distribution of \<open>ERAClasses/ERANataf.py\<close>\<close>

subsection \<open>What the class is given\<close>

text \<open>
  A marginal is an \<open>ERADist\<close> object, of a class defined in another module and taken
  as given: the record holds the attribute and the five methods that \<open>ERANataf\<close>
  calls.  \<open>mean()\<close> and \<open>std()\<close> may return \<open>inf\<close> or \<open>nan\<close>, which the constructor
  tests for.
\<close>

record marginal =
  Name :: string
  mean :: pyfloat
  std :: pyfloat
  cdf :: "real \<Rightarrow> real"
  icdf :: "real \<Rightarrow> real"
  pdf :: "real \<Rightarrow> real"

definition isfinite :: "pyfloat \<Rightarrow> bool" where
  "isfinite p = (case p of Fin _ \<Rightarrow> True | _ \<Rightarrow> False)"

text \<open>The real behind a finite float; the constructor has rejected the other floats.\<close>

definition fin :: "pyfloat \<Rightarrow> real" where
  "fin p = (case p of Fin a \<Rightarrow> a | _ \<Rightarrow> 0)"

text \<open>
  The routines of NumPy and SciPy that the class calls, as parameters of the model.
  \<^item> \<open>linalg_norm\<close>: \<open>np.linalg.norm\<close> of a two-dimensional array, the double that it
    returns: the Frobenius norm up to the rounding of the sum and of the square root.
  \<^item> \<open>cholesky\<close>: \<open>np.linalg.cholesky\<close> on a square array; \<open>None\<close> is \<open>LinAlgError\<close>.
  \<^item> \<open>solve\<close>: \<open>np.linalg.solve(a, b)\<close> for a two-dimensional \<open>b\<close>; \<open>None\<close> is
    \<open>LinAlgError\<close> (singular \<open>a\<close>).
  \<^item> \<open>leggauss\<close>: \<open>np.polynomial.legendre.leggauss\<close>, points and weights.
  \<^item> \<open>norm_cdf\<close>, \<open>norm_ppf\<close>, \<open>norm_pdf\<close>: \<open>scipy.stats.norm\<close>.
  \<^item> \<open>mvn_pdf\<close>, \<open>mvn_cdf\<close>: \<open>scipy.stats.multivariate_normal\<close>, one value for each
    row of the first argument; the second is a Monte Carlo estimate, and the parameter
    stands for the estimates of one run.
  \<^item> \<open>brentq\<close>: \<open>scipy.optimize.brentq(f, a, b, full_output=True)\<close>, the root \<open>x0\<close>
    of a search that converged, or the exception that the call raises.  The call leaves
    \<open>disp\<close> at its default \<open>True\<close>, so a search that does not converge raises
    \<open>RuntimeError\<close> (\<open>RootNotConverged\<close>) and returns no result object; an interval
    without a change of sign raises \<open>ValueError\<close>.
  \<^item> \<open>fsolve\<close>: \<open>scipy.optimize.fsolve(func, x0, full_output=True)\<close>, the root
    \<open>sol[0]\<close> and whether \<open>sol[2] == 1\<close>.
  \<^item> \<open>rand\<close>: the successive values of \<open>np.random.rand()\<close>, by their position.
  \<^item> \<open>randn\<close>: the array that \<open>np.random.randn(d, n)\<close> returns.
\<close>

record numlib =
  linalg_norm :: "matrix \<Rightarrow> real"
  cholesky :: "matrix \<Rightarrow> matrix option"
  solve :: "matrix \<Rightarrow> matrix \<Rightarrow> matrix option"
  leggauss :: "nat \<Rightarrow> real list \<times> real list"
  norm_cdf :: "real \<Rightarrow> real"
  norm_ppf :: "real \<Rightarrow> real"
  norm_pdf :: "real \<Rightarrow> real"
  mvn_pdf :: "matrix \<Rightarrow> real list \<Rightarrow> matrix \<Rightarrow> real list"
  mvn_cdf :: "matrix \<Rightarrow> real list \<Rightarrow> matrix \<Rightarrow> real list"
  brentq :: "(real \<Rightarrow> real) \<Rightarrow> real \<Rightarrow> real \<Rightarrow> error + real"
  fsolve :: "(real \<Rightarrow> real) \<Rightarrow> real \<Rightarrow> real \<times> bool"
  rand :: "nat \<Rightarrow> real"
  randn :: "nat \<Rightarrow> nat \<Rightarrow> matrix"

text \<open>\<open>np.linalg.cholesky\<close> raises \<open>LinAlgError\<close> on an array that is not square.\<close>

definition np_cholesky :: "numlib \<Rightarrow> matrix \<Rightarrow> matrix option" where
  "np_cholesky lib m = (if square m then cholesky lib m else None)"

record ERANataf =
  Marginals :: "marginal list"
  Rho_X :: matrix
  Rho_Z :: matrix
  A :: matrix

subsection \<open>The constructor: checks of the input\<close>

definition finite_moments :: "marginal list \<Rightarrow> bool" where
  "finite_moments M = list_all (\<lambda>m. isfinite (mean m) \<and> isfinite (std m)) M"

text \<open>\<open>np.all(self.Rho_X - self.Rho_X.T == 0)\<close> and \<open>np.all(np.diag(self.Rho_X) == 1)\<close>.\<close>

definition symmetric :: "matrix \<Rightarrow> bool" where
  "symmetric m =
     list_all (\<lambda>i. list_all (\<lambda>j. m ! i ! j - m ! j ! i = 0) [0..<length m]) [0..<length m]"

definition unit_diagonal :: "matrix \<Rightarrow> bool" where
  "unit_diagonal m = list_all (\<lambda>i. m ! i ! i = 1) [0..<length m]"

definition check_correlation :: "numlib \<Rightarrow> marginal list \<Rightarrow> matrix \<Rightarrow> error + unit" where
  "check_correlation lib M R =
     (if \<not> finite_moments M then Inl InvalidMoments
      else case np_cholesky lib R of
        None \<Rightarrow> Inl NotPositiveDefinite
      | Some _ \<Rightarrow>
          if \<not> symmetric R then Inl NotSymmetric
          else if \<not> unit_diagonal R then Inl DiagonalNotOne
          else Inr ())"

subsection \<open>The constructor: the integrand of the Nataf equation\<close>

text \<open>
  The quadrature grid: \<open>xi\<close>, \<open>eta\<close> and \<open>w2d\<close> of the source, from the 1024 points
  and weights of Gauss-Legendre moved to [-8, 8].
\<close>

definition quadrature :: "numlib \<Rightarrow> real list \<times> real list \<times> real list" where
  "quadrature lib =
     (let n = 1024; zmax = 8; zmin = - zmax;
          points = map (\<lambda>p. - (0.5 * (p + 1) * (zmax - zmin) + zmin)) (fst (leggauss lib n));
          weights = map (\<lambda>w. w * (0.5 * (zmax - zmin))) (snd (leggauss lib n));
          xi = concat (map (replicate n) points);
          eta = concat (replicate n points);
          w2d = concat (map (\<lambda>wa. map (\<lambda>wb. wb * wa) weights) weights)
      in (xi, eta, w2d))"

definition bivariateNormalPdf :: "real \<Rightarrow> real \<Rightarrow> real \<Rightarrow> real" where
  "bivariateNormalPdf x1 x2 rho =
     1 / (2 * pi * sqrt (1 - rho\<^sup>2))
       * exp (- 1 / (2 * (1 - rho\<^sup>2)) * (x1\<^sup>2 - 2 * rho * x1 * x2 + x2\<^sup>2))"

text \<open>\<open>coef\<close> of the source, for the marginals of one pair.\<close>

definition nataf_coef :: "numlib \<Rightarrow> marginal \<Rightarrow> marginal \<Rightarrow> real list" where
  "nataf_coef lib mi mj =
     (case quadrature lib of (xi, eta, w2d) \<Rightarrow>
        let tmp_f_xi = map (\<lambda>e. (icdf mj (norm_cdf lib e) - fin (mean mj)) / fin (std mj)) eta;
            tmp_f_eta = map (\<lambda>x. (icdf mi (norm_cdf lib x) - fin (mean mi)) / fin (std mi)) xi
        in map2 (*) (map2 (*) tmp_f_xi tmp_f_eta) w2d)"

text \<open>
  The closure \<open>fun\<close> of the source.  It reads \<open>coef\<close>, \<open>j\<close> and the variable \<open>i\<close> when
  it is called, not when it is defined, so it is a function of the value \<open>i\<close> has at
  the call; reading \<open>self.Rho_X[i, j]\<close> raises when that value is out of range.
\<close>

definition nataf_residual :: "numlib \<Rightarrow> real list \<Rightarrow> real \<Rightarrow> real \<Rightarrow> real" where
  "nataf_residual lib coef r rho0 =
     (case quadrature lib of (xi, eta, w2d) \<Rightarrow>
        sum_list (map2 (*) coef (map2 (\<lambda>x1 x2. bivariateNormalPdf x1 x2 rho0) xi eta)) - r)"

definition nataf_fun ::
  "numlib \<Rightarrow> real list \<Rightarrow> matrix \<Rightarrow> nat \<Rightarrow> nat \<Rightarrow> error + (real \<Rightarrow> real)" where
  "nataf_fun lib coef R i j = then_do (get2 R i j) (\<lambda>r. Inr (nataf_residual lib coef r))"

subsection \<open>The constructor: one pair of marginals\<close>

text \<open>\<open>self.Rho_Z[i, j] = v\<close> followed by \<open>self.Rho_Z[j, i] = self.Rho_Z[i, j]\<close>.\<close>

definition store :: "matrix \<Rightarrow> nat \<Rightarrow> nat \<Rightarrow> real \<Rightarrow> error + matrix" where
  "store RZ i j v =
     then_do (set2 RZ i j v) (\<lambda>RZ1.
     then_do (get2 RZ1 i j) (\<lambda>w. set2 RZ1 j i w))"

text \<open>
  The loop \<open>for i in range(10)\<close> of the random restarts.  Its loop variable is the
  variable \<open>i\<close> of the enclosing loop over the marginals: the loop returns the value it
  leaves in \<open>i\<close> together with the last \<open>sol\<close> and the number of random draws made so
  far.  \<open>fsolve\<close> calls \<open>fun\<close> at least once, so an exception of \<open>fun\<close> ends the run.
\<close>

fun restart_loop ::
  "numlib \<Rightarrow> (nat \<Rightarrow> error + (real \<Rightarrow> real)) \<Rightarrow> nat list \<Rightarrow> nat \<times> real \<times> bool \<Rightarrow> nat
     \<Rightarrow> error + (nat \<times> real \<times> bool) \<times> nat" where
  "restart_loop lib f [] sol cnt = Inr (sol, cnt)"
| "restart_loop lib f (k # ks) sol cnt =
     (let init = 2 * rand lib cnt - 1 in
      then_do (f k) (\<lambda>fk.
        case fsolve lib fk init of (x, ok) \<Rightarrow>
          if ok then Inr ((k, x, ok), Suc cnt)
          else restart_loop lib f ks (k, x, ok) (Suc cnt)))"

text \<open>
  The body of the loop over \<open>j\<close>.  The state is the value of the variable \<open>i\<close>, the
  array \<open>self.Rho_Z\<close> and the number of random draws made so far.  A result object
  \<open>r\<close> that \<open>brentq\<close> returns has \<open>r.converged\<close> true, the other outcomes of the
  search being exceptions.  The closed forms of the lognormal pairs and the integrand
  of the root search are computed over the reals, without rounding: where the floats
  would give \<open>inf\<close> or \<open>nan\<close> (a mean or a standard deviation of zero), the quotient
  of the model is 0 and the model does not follow the floats.
\<close>

definition fill_pair ::
  "numlib \<Rightarrow> marginal list \<Rightarrow> matrix \<Rightarrow> nat \<times> matrix \<times> nat \<Rightarrow> nat
     \<Rightarrow> error + nat \<times> matrix \<times> nat" where
  "fill_pair lib M R st j =
     (case st of (i, RZ, cnt) \<Rightarrow>
      then_do (get2 R i j) (\<lambda>rho.
        if rho = 0 then Inr (i, RZ, cnt)
        else if \<not> (i < length M \<and> j < length M) then Inl IndexError
        else
          let mi = M ! i; mj = M ! j in
          if (Name mi = ''standardnormal'' \<and> Name mj = ''standardnormal'')
             \<or> (Name mi = ''normal'' \<and> Name mj = ''normal'')
          then
            then_do (set2 RZ i j rho) (\<lambda>RZ1.
            then_do (get2 R j i) (\<lambda>rho'.
            then_do (set2 RZ1 j i rho') (\<lambda>RZ2. Inr (i, RZ2, cnt))))
          else if Name mi = ''normal'' \<and> Name mj = ''lognormal''
          then
            let Vj = fin (std mj) / fin (mean mj) in
            then_do (store RZ i j (rho * Vj / sqrt (ln (1 + Vj\<^sup>2)))) (\<lambda>RZ2. Inr (i, RZ2, cnt))
          else if Name mi = ''lognormal'' \<and> Name mj = ''normal''
          then
            let Vi = fin (std mi) / fin (mean mi) in
            then_do (store RZ i j (rho * Vi / sqrt (ln (1 + Vi\<^sup>2)))) (\<lambda>RZ2. Inr (i, RZ2, cnt))
          else if Name mi = ''lognormal'' \<and> Name mj = ''lognormal''
          then
            let Vi = fin (std mi) / fin (mean mi);
                Vj = fin (std mj) / fin (mean mj) in
            then_do (store RZ i j (ln (1 + rho * Vi * Vj) / sqrt (ln (1 + Vi\<^sup>2) * ln (1 + Vj\<^sup>2))))
              (\<lambda>RZ2. Inr (i, RZ2, cnt))
          else
            let coef = nataf_coef lib mi mj;
                eps = 1 / 2 ^ 52 in
            then_do (nataf_fun lib coef R i j) (\<lambda>f.
            then_do (brentq lib f (- 1 + eps) (1 - eps)) (\<lambda>x0.
              let converged = True in
              if converged then then_do (store RZ i j x0) (\<lambda>RZ2. Inr (i, RZ2, cnt))
              else case fsolve lib f rho of (x1, ok1) \<Rightarrow>
                if ok1 then then_do (store RZ i j x1) (\<lambda>RZ2. Inr (i, RZ2, cnt))
                else case fsolve lib f (- rho) of (x2, ok2) \<Rightarrow>
                  if ok2 then then_do (store RZ i j x2) (\<lambda>RZ2. Inr (i, RZ2, cnt))
                  else
                    then_do (restart_loop lib (\<lambda>k. nataf_fun lib coef R k j) [0..<10]
                               (i, x2, ok2) cnt)
                      (\<lambda>(sol, cnt'). case sol of (i', x3, ok3) \<Rightarrow>
                         if ok3 then then_do (store RZ i' j x3) (\<lambda>RZ2. Inr (i', RZ2, cnt'))
                         else Inl NatafNoConvergence)))))"

subsection \<open>The constructor: the two loops and the factorisation\<close>

text \<open>\<open>for j in range(i + 1, n_dist)\<close>: the range is fixed when the loop starts.\<close>

fun fill_row ::
  "numlib \<Rightarrow> marginal list \<Rightarrow> matrix \<Rightarrow> nat list \<Rightarrow> nat \<times> matrix \<times> nat
     \<Rightarrow> error + nat \<times> matrix \<times> nat" where
  "fill_row lib M R [] st = Inr st"
| "fill_row lib M R (j # js) st = then_do (fill_pair lib M R st j) (fill_row lib M R js)"

text \<open>\<open>for i in range(n_dist)\<close>: each round assigns the next value of the range to \<open>i\<close>.\<close>

fun fill_rows ::
  "numlib \<Rightarrow> marginal list \<Rightarrow> matrix \<Rightarrow> nat \<Rightarrow> nat list \<Rightarrow> matrix \<times> nat
     \<Rightarrow> error + matrix \<times> nat" where
  "fill_rows lib M R n [] st = Inr st"
| "fill_rows lib M R n (i # is) st =
     (case st of (RZ, cnt) \<Rightarrow>
        then_do (fill_row lib M R [i + 1..<n] (i, RZ, cnt))
          (\<lambda>(i', RZ', cnt'). fill_rows lib M R n is (RZ', cnt')))"

text \<open>The constant \<open>10 ** (-5)\<close> of the guard: the double 1e-05, which is 5902958103587057 / 2^69.\<close>

definition norm_tolerance :: real where
  "norm_tolerance = 5902958103587057 / 2 ^ 69"

text \<open>
  \<open>ERANataf.__init__\<close>.  The draws of \<open>np.random.rand()\<close> are counted from 0; the
  count is not part of the object.  For an array of the size of the list of marginals
  that has passed the checks, the floats compute the difference from the identity
  without rounding (a diagonal of one minus one, the other entries minus zero), and so
  they do for the array [[1]] broadcast against a larger identity.  In the broadcast
  of a larger array against the identity of size 1 they round \<open>r - 1\<close>, which the
  exact difference of the model does not follow; there the two loops are empty, so
  the outcome of the guard does not enter the result.
\<close>

definition ERANataf_init :: "numlib \<Rightarrow> marginal list \<Rightarrow> matrix \<Rightarrow> error + ERANataf" where
  "ERANataf_init lib M Correlation =
     (let n_dist = length M in
      then_do (check_correlation lib M Correlation) (\<lambda>_.
      then_do (broadcast_sub Correlation (identity n_dist)) (\<lambda>D.
      then_do (if linalg_norm lib D > norm_tolerance
               then fill_rows lib M Correlation n_dist [0..<n_dist] (identity n_dist, 0)
               else Inr (identity n_dist, 0))
        (\<lambda>(RZ, cnt).
           case np_cholesky lib RZ of
             None \<Rightarrow> Inl TransformedNotPositiveDefinite
           | Some L \<Rightarrow> Inr \<lparr>Marginals = M, Rho_X = Correlation, Rho_Z = RZ, A = L\<rparr>))))"


subsection \<open>Arrays given to and returned by the methods\<close>

text \<open>
  An argument of a method is an array of any number of dimensions, and a result is
  what \<open>np.squeeze\<close> leaves: a scalar, a vector or a two-dimensional array.  \<open>ArrN\<close>
  stands for every array of more than two dimensions.
\<close>

datatype ndarray = Arr0 real | Arr1 "real list" | Arr2 matrix | ArrN

text \<open>\<open>np.array(X, ndmin=2)\<close> on an array of at most two dimensions.\<close>

fun atleast_2d :: "ndarray \<Rightarrow> matrix" where
  "atleast_2d (Arr0 x) = [[x]]"
| "atleast_2d (Arr1 v) = [v]"
| "atleast_2d (Arr2 m) = m"
| "atleast_2d ArrN = []"

text \<open>\<open>np.squeeze\<close>: every dimension of size 1 is dropped.\<close>

definition squeeze2 :: "matrix \<Rightarrow> ndarray" where
  "squeeze2 m =
     (if length m = 1 then (if ncols m = 1 then Arr0 (m ! 0 ! 0) else Arr1 (m ! 0))
      else if ncols m = 1 then Arr1 (col m 0)
      else Arr2 m)"

fun np_squeeze :: "ndarray \<Rightarrow> ndarray" where
  "np_squeeze (Arr0 x) = Arr0 x"
| "np_squeeze (Arr1 v) = (if length v = 1 then Arr0 (v ! 0) else Arr1 v)"
| "np_squeeze (Arr2 m) = squeeze2 m"
| "np_squeeze ArrN = ArrN"

text \<open>The attribute \<open>.T\<close>: an array of fewer than two dimensions is its own transpose.\<close>

fun np_T :: "ndarray \<Rightarrow> ndarray" where
  "np_T (Arr2 m) = Arr2 (mat_T m)"
| "np_T a = a"

text \<open>\<open>a @ c\<close> and \<open>np.dot(a, c)\<close> of two-dimensional arrays: the inner sizes must agree.\<close>

definition np_matmul :: "matrix \<Rightarrow> matrix \<Rightarrow> error + matrix" where
  "np_matmul a c = (if ncols a = length c then Inr (mat_mul a c) else Inl ValueError)"

text \<open>
  \<open>np.linalg.solve(a, c)\<close>.  A right-hand side of one dimension is a single column
  and gives a vector; one of no dimension is refused, as is one whose first size is
  not the size of \<open>a\<close>.
\<close>

definition solve2 :: "numlib \<Rightarrow> matrix \<Rightarrow> matrix \<Rightarrow> error + matrix" where
  "solve2 lib a m =
     (if \<not> square a then Inl LinAlgError
      else if length m \<noteq> length a then Inl ValueError
      else case solve lib a m of None \<Rightarrow> Inl LinAlgError | Some u \<Rightarrow> Inr u)"

fun np_solve :: "numlib \<Rightarrow> matrix \<Rightarrow> ndarray \<Rightarrow> error + ndarray" where
  "np_solve lib a (Arr2 m) = then_do (solve2 lib a m) (\<lambda>u. Inr (Arr2 u))"
| "np_solve lib a (Arr1 v) = then_do (solve2 lib a (map (\<lambda>x. [x]) v)) (\<lambda>u. Inr (Arr1 (concat u)))"
| "np_solve lib a (Arr0 x) = (if \<not> square a then Inl LinAlgError else Inl ValueError)"
| "np_solve lib a ArrN = (if \<not> square a then Inl LinAlgError else Inl ValueError)"

text \<open>\<open>m[:, i] = v\<close> for a vector with one value for each row of \<open>m\<close>.\<close>

definition set_col :: "matrix \<Rightarrow> nat \<Rightarrow> real list \<Rightarrow> matrix" where
  "set_col m i v = map2 (\<lambda>row x. row[i := x]) m v"

subsection \<open>The checks that open the methods\<close>

definition discrete_names :: "string list" where
  "discrete_names = [''binomial'', ''geometric'', ''negativebinomial'', ''poisson'']"

text \<open>The loop that looks for a discrete marginal, in \<open>X2U\<close> and in \<open>pdf\<close>.\<close>

definition has_discrete :: "marginal list \<Rightarrow> bool" where
  "has_discrete M = list_ex (\<lambda>m. Name m \<in> set discrete_names) M"

text \<open>
  The check of the dimensions, the same statements in \<open>X2U\<close>, \<open>U2X\<close>, \<open>pdf\<close> and
  \<open>cdf\<close>: more than two dimensions raise, a single column is turned into a row
  unless the distribution has one dimension, and the second size must be the number
  of marginals.
\<close>

definition check_dimensions :: "nat \<Rightarrow> ndarray \<Rightarrow> error + matrix" where
  "check_dimensions n_dim X =
     (case X of
        ArrN \<Rightarrow> Inl TooManyDimensions
      | _ \<Rightarrow>
        let X1 = atleast_2d X;
            X2 = (if ncols X1 = 1 \<and> n_dim \<noteq> 1 then mat_T X1 else X1)
        in if ncols X2 \<noteq> n_dim then Inl WrongShape else Inr X2)"

subsection \<open>X2U\<close>

text \<open>
  The loop \<open>Z[i, :] = stats.norm.ppf(self.Marginals[i].cdf(X[:, i]))\<close> on
  \<open>Z = np.zeros(np.flip(X.shape))\<close>.
\<close>

definition X_to_Z :: "numlib \<Rightarrow> marginal list \<Rightarrow> matrix \<Rightarrow> matrix" where
  "X_to_Z lib M X =
     fold (\<lambda>i Z. Z[i := map (\<lambda>x. norm_ppf lib (cdf (M ! i) x)) (col X i)])
       [0..<length M] (zeros (ncols X) (length X))"

text \<open>The diagonal array of the Jacobian of \<open>X2U\<close>, from the first point.\<close>

definition X2U_diag :: "numlib \<Rightarrow> marginal list \<Rightarrow> matrix \<Rightarrow> matrix \<Rightarrow> matrix" where
  "X2U_diag lib M X Z =
     fold (\<lambda>i D. D[i := (D ! i)[i := pdf (M ! i) (X ! 0 ! i) / norm_pdf lib (Z ! i ! 0)]])
       [0..<length M] (zeros (length M) (length M))"

definition X2U :: "numlib \<Rightarrow> ERANataf \<Rightarrow> ndarray \<Rightarrow> bool \<Rightarrow> error + ndarray \<times> matrix option" where
  "X2U lib self X Jacobian =
     (let n_dim = length (Marginals self) in
      if has_discrete (Marginals self) then Inl DiscreteMarginal
      else
        then_do (check_dimensions n_dim X) (\<lambda>X.
          let Z = X_to_Z lib (Marginals self) X in
          then_do (np_solve lib (A self) (squeeze2 Z)) (\<lambda>S.
            let U = np_T S in
            if Jacobian then
              (if 0 < n_dim \<and> length X = 0 then Inl IndexError
               else
                 then_do (solve2 lib (A self) (X2U_diag lib (Marginals self) X Z)) (\<lambda>Jac.
                   Inr (np_squeeze U, Some Jac)))
            else Inr (np_squeeze U, None))))"

subsection \<open>U2X and random\<close>

text \<open>
  The loop \<open>X[:, i] = self.Marginals[i].icdf(stats.norm.cdf(Z[i, :]))\<close> on an array of
  zeros with \<open>n\<close> rows, which \<open>U2X\<close> and \<open>random\<close> both run; \<open>Z[i, :]\<close> raises when
  \<open>Z\<close> has fewer rows than there are marginals.
\<close>

definition Z_to_X :: "numlib \<Rightarrow> marginal list \<Rightarrow> matrix \<Rightarrow> nat \<Rightarrow> error + matrix" where
  "Z_to_X lib M Z n =
     (if length Z < length M then Inl IndexError
      else Inr (fold (\<lambda>i X. set_col X i (map (\<lambda>z. icdf (M ! i) (norm_cdf lib z)) (Z ! i)))
                  [0..<length M] (zeros n (length M))))"

definition U2X_diag :: "numlib \<Rightarrow> marginal list \<Rightarrow> matrix \<Rightarrow> matrix \<Rightarrow> matrix" where
  "U2X_diag lib M X Z =
     fold (\<lambda>i D. D[i := (D ! i)[i := norm_pdf lib (Z ! i ! 0) / pdf (M ! i) (X ! 0 ! i)]])
       [0..<length M] (zeros (length M) (length M))"

definition U2X :: "numlib \<Rightarrow> ERANataf \<Rightarrow> ndarray \<Rightarrow> bool \<Rightarrow> error + ndarray \<times> matrix option" where
  "U2X lib self U Jacobian =
     (let n_dim = length (Marginals self) in
      then_do (check_dimensions n_dim U) (\<lambda>U1.
        let U2 = mat_T U1 in
        then_do (np_matmul (A self) U2) (\<lambda>Z.
        then_do (Z_to_X lib (Marginals self) Z (length U1)) (\<lambda>X.
          if Jacobian then
            (if 0 < n_dim \<and> length X = 0 then Inl IndexError
             else
               then_do (np_matmul (U2X_diag lib (Marginals self) X Z) (A self)) (\<lambda>Jac.
                 Inr (squeeze2 X, Some Jac)))
          else Inr (squeeze2 X, None)))))"

text \<open>\<open>random\<close>, for a number of samples that is not negative.\<close>

definition random :: "numlib \<Rightarrow> ERANataf \<Rightarrow> nat \<Rightarrow> error + ndarray" where
  "random lib self n =
     (let n_dim = length (Marginals self);
          U = randn lib n_dim n in
      then_do (np_matmul (A self) U) (\<lambda>Z.
      then_do (Z_to_X lib (Marginals self) Z n) (\<lambda>jr. Inr (squeeze2 jr))))"

subsection \<open>pdf and cdf\<close>

text \<open>
  The loop \<open>U[:, i] = stats.norm.ppf(self.Marginals[i].cdf(X[:, i]))\<close> on
  \<open>U = np.zeros([n_X, n_dim])\<close>, in \<open>pdf\<close> and in \<open>cdf\<close>.
\<close>

definition X_to_U_columns :: "numlib \<Rightarrow> marginal list \<Rightarrow> matrix \<Rightarrow> matrix" where
  "X_to_U_columns lib M X =
     fold (\<lambda>i U. set_col U i (map (\<lambda>x. norm_ppf lib (cdf (M ! i) x)) (col X i)))
       [0..<length M] (zeros (length X) (length M))"

text \<open>\<open>realmin = np.finfo(np.double).tiny\<close>.\<close>

definition realmin :: real where
  "realmin = 1 / 2 ^ 1022"

text \<open>A result of one value is returned as a scalar.\<close>

definition scalar_or_vector :: "real list \<Rightarrow> ndarray" where
  "scalar_or_vector v = (if length v = 1 then Arr0 (v ! 0) else Arr1 v)"

definition ERANataf_pdf :: "numlib \<Rightarrow> ERANataf \<Rightarrow> ndarray \<Rightarrow> error + ndarray" where
  "ERANataf_pdf lib self X =
     (let n_dim = length (Marginals self);
          M = Marginals self in
      if has_discrete M then Inl DiscreteMarginal
      else
        then_do (check_dimensions n_dim X) (\<lambda>X.
          let n_X = length X;
              U = X_to_U_columns lib M X;
              phi = map (\<lambda>i. map (norm_pdf lib) (col U i)) [0..<n_dim];
              f = map (\<lambda>i. map (pdf (M ! i)) (col X i)) [0..<n_dim];
              mu = replicate n_dim 0;
              phi_n = mvn_pdf lib U mu (Rho_Z self);
              jointpdf = map (\<lambda>i. (prod_list (col f i) / (prod_list (col phi i) + realmin))
                                     * phi_n ! i) [0..<n_X]
          in Inr (scalar_or_vector jointpdf)))"

definition ERANataf_cdf :: "numlib \<Rightarrow> ERANataf \<Rightarrow> ndarray \<Rightarrow> error + ndarray" where
  "ERANataf_cdf lib self X =
     (let n_dim = length (Marginals self);
          M = Marginals self in
      then_do (check_dimensions n_dim X) (\<lambda>X.
        let U = X_to_U_columns lib M X;
            mu = replicate n_dim 0;
            jointcdf = mvn_cdf lib U mu (Rho_Z self)
        in Inr (scalar_or_vector jointcdf)))"


section \<open>An instance of the library routines\<close>

text \<open>
  To run the model on concrete inputs the library routines need values.  The norm is
  the Frobenius norm, and the factorisation and the triangular solver below are the
  textbook algorithms, all over the reals.  The standard normal distribution has no closed form, so its place is taken
  by the distribution with cumulative function 1/2 + x / (2 (1 + |x|)), which like the
  normal one is a strictly increasing bijection from the reals onto (0, 1).
\<close>

fun chol_prefix :: "matrix \<Rightarrow> real list \<Rightarrow> real list \<Rightarrow> real list" where
  "chol_prefix [] a acc = acc"
| "chol_prefix (lj # Ls) a acc =
     chol_prefix Ls a
       (acc @ [(a ! length acc - sum_list (map2 (*) acc lj)) / lj ! length acc])"

fun chol_rows :: "matrix \<Rightarrow> matrix \<Rightarrow> matrix option" where
  "chol_rows [] Ls = Some Ls"
| "chol_rows (a # as) Ls =
     (let acc = chol_prefix Ls a [];
          d = a ! length Ls - sum_list (map (\<lambda>x. x * x) acc)
      in if d \<le> 0 then None
         else chol_rows as (Ls @ [acc @ sqrt d # replicate (length a - length Ls - 1) 0]))"

fun forward_subst :: "matrix \<Rightarrow> matrix \<Rightarrow> matrix \<Rightarrow> matrix option" where
  "forward_subst [] Bs Us = Some Us"
| "forward_subst (l # Ls) [] Us = None"
| "forward_subst (l # Ls) (r # Bs) Us =
     (if l ! length Us = 0 then None
      else forward_subst Ls Bs
             (Us @ [map (\<lambda>c. (r ! c - sum_list (map2 (\<lambda>lk u. lk * u ! c) l Us)) / l ! length Us)
                      [0..<length r]]))"

definition example_cdf :: "real \<Rightarrow> real" where
  "example_cdf x = 1 / 2 + x / (2 * (1 + \<bar>x\<bar>))"

definition example_ppf :: "real \<Rightarrow> real" where
  "example_ppf p = (if p \<ge> 1 / 2 then (2 * p - 1) / (2 - 2 * p) else (2 * p - 1) / (2 * p))"

definition example_pdf :: "real \<Rightarrow> real" where
  "example_pdf x = 1 / (2 * (1 + \<bar>x\<bar>)\<^sup>2)"

text \<open>
  In the instance the bracketed search does not converge, which \<open>brentq\<close> reports by
  its \<open>RuntimeError\<close>, no call of \<open>fsolve\<close> converges and every random draw is 1/2;
  the examples replace these fields by the behaviour they need.
\<close>

definition example_lib :: numlib where
  "example_lib =
     \<lparr>linalg_norm = frobenius,
      cholesky = (\<lambda>m. chol_rows m []),
      solve = (\<lambda>a m. forward_subst a m []),
      leggauss = (\<lambda>n. (replicate n 0, replicate n (2 / real n))),
      norm_cdf = example_cdf,
      norm_ppf = example_ppf,
      norm_pdf = example_pdf,
      mvn_pdf = (\<lambda>U mu cov. map (\<lambda>u. prod_list (map example_pdf u)) U),
      mvn_cdf = (\<lambda>U mu cov. map (\<lambda>u. prod_list (map example_cdf u)) U),
      brentq = (\<lambda>f lo hi. Inl RootNotConverged),
      fsolve = (\<lambda>f x0. (x0, False)),
      rand = (\<lambda>k. 1 / 2),
      randn = (\<lambda>d n. replicate d (replicate n 0))\<rparr>"


text \<open>A variation in which the bracketed search converges, to 1/4.\<close>

definition brent_lib :: numlib where
  "brent_lib = example_lib\<lparr>brentq := (\<lambda>f lo hi. Inr (1 / 4))\<rparr>"

text \<open>
  Marginals for the examples: the uniform distribution on [0, 1], the distribution of
  one fair coin toss under the name of its family, and a marginal that carries the
  name \<open>normal\<close> with the stand-in above as its law.
\<close>

definition uniform01 :: marginal where
  "uniform01 =
     \<lparr>Name = ''uniform'', mean = Fin (1 / 2), std = Fin (sqrt (1 / 12)),
      cdf = (\<lambda>x. min 1 (max 0 x)), icdf = (\<lambda>p. p),
      pdf = (\<lambda>x. if 0 \<le> x \<and> x \<le> 1 then 1 else 0)\<rparr>"

definition coin :: marginal where
  "coin =
     \<lparr>Name = ''binomial'', mean = Fin (1 / 2), std = Fin (1 / 2),
      cdf = (\<lambda>x. if x < 0 then 0 else if x < 1 then 1 / 2 else 1),
      icdf = (\<lambda>p. if p \<le> 1 / 2 then 0 else 1),
      pdf = (\<lambda>x. if x = 0 \<or> x = 1 then 1 / 2 else 0)\<rparr>"

definition example_normal :: marginal where
  "example_normal =
     \<lparr>Name = ''normal'', mean = Fin 0, std = Fin 1,
      cdf = example_cdf, icdf = example_ppf, pdf = example_pdf\<rparr>"


text \<open>The joint distribution of two independent uniform marginals, as the constructor builds it.\<close>

definition unit_square :: ERANataf where
  "unit_square =
     \<lparr>Marginals = [uniform01, uniform01], Rho_X = [[1, 0], [0, 1]],
      Rho_Z = [[1, 0], [0, 1]], A = [[1, 0], [0, 1]]\<rparr>"


section \<open>Vocabulary of the properties\<close>

text \<open>
  The pairs of names for which the source has a closed form, in the order of its tests.
\<close>

definition closed_form :: "marginal \<Rightarrow> marginal \<Rightarrow> bool" where
  "closed_form mi mj =
     ((Name mi = ''standardnormal'' \<and> Name mj = ''standardnormal'')
      \<or> (Name mi = ''normal'' \<and> Name mj = ''normal'')
      \<or> (Name mi = ''normal'' \<and> Name mj = ''lognormal'')
      \<or> (Name mi = ''lognormal'' \<and> Name mj = ''normal'')
      \<or> (Name mi = ''lognormal'' \<and> Name mj = ''lognormal''))"

text \<open>The two marginals carry the same name, and it is one of the two normal names.\<close>

definition normal_pair :: "marginal list \<Rightarrow> nat \<Rightarrow> nat \<Rightarrow> bool" where
  "normal_pair M i j =
     ((Name (M ! i) = ''standardnormal'' \<and> Name (M ! j) = ''standardnormal'')
      \<or> (Name (M ! i) = ''normal'' \<and> Name (M ! j) = ''normal''))"

text \<open>
  What one round of the loop over \<open>j\<close> does to \<open>self.Rho_Z\<close>: nothing for a
  correlation of zero, and otherwise a write at (i, j) followed by a write at (j, i),
  of the given correlations for a normal pair.
\<close>

definition pair_written ::
  "marginal list \<Rightarrow> matrix \<Rightarrow> nat \<Rightarrow> nat \<Rightarrow> matrix \<Rightarrow> matrix \<Rightarrow> bool" where
  "pair_written M R i j RZ RZ' =
     ((R ! i ! j = 0 \<and> RZ' = RZ)
      \<or> (\<exists>v w RZ1. R ! i ! j \<noteq> 0 \<and> set2 RZ i j v = Inr RZ1 \<and> set2 RZ1 j i w = Inr RZ'
            \<and> (normal_pair M i j \<longrightarrow> v = R ! i ! j \<and> w = R ! j ! i)))"


section \<open>Properties of the floats\<close>

lemma then_do_Inr [simp]: "then_do (Inr v) f = f v"
  and then_do_Inl [simp]: "then_do (Inl e) f = Inl e"
  by (simp_all add: then_do_def)

lemma rne_of_int: "rne (of_int m) = m"
  by (simp add: rne_def)

lemma rne_small: "\<bar>q\<bar> \<le> 1 / 2 \<Longrightarrow> rne q = 0"
proof -
  assume a: "\<bar>q\<bar> \<le> 1 / 2"
  consider "0 \<le> q" | "q < 0" by linarith
  then show ?thesis
  proof cases
    case 1
    with a have "\<lfloor>q\<rfloor> = 0" by (auto simp: floor_eq_iff)
    with a 1 show ?thesis by (auto simp: rne_def Let_def)
  next
    case 2
    with a have f: "\<lfloor>q\<rfloor> = - 1" by (auto simp: floor_eq_iff)
    with a 2 show ?thesis by (auto simp: rne_def Let_def)
  qed
qed

text \<open>
  A number m * 2^e with a significand of at most 53 bits and an exponent in the range
  of the doubles is a double: rounding returns it.
\<close>

lemma fl_exact_powr:
  fixes m e :: int
  assumes m0: "m \<noteq> 0" and m: "\<bar>m\<bar> < 2 ^ 53" and e: "- 1074 \<le> e" "e \<le> 971"
  shows "fl (of_int m * 2 powr of_int e) = Fin (of_int m * 2 powr of_int e)"
proof -
  let ?x = "of_int m * 2 powr of_int e :: real"
  define k where "k = \<lfloor>log 2 \<bar>of_int m :: real\<bar>\<rfloor>"
  define E where "E = max (k + e - 52) (- 1074)"
  have m1: "(1::real) \<le> \<bar>of_int m\<bar>" using m0 by (simp flip: of_int_abs)
  have mr: "\<bar>of_int m :: real\<bar> < 2 ^ 53"
    using m by (simp flip: of_int_abs add: of_int_less_numeral_power_cancel_iff)
  have x0: "?x \<noteq> 0" using m0 by simp
  have ax: "\<bar>?x\<bar> = \<bar>of_int m\<bar> * 2 powr of_int e" by (simp add: abs_mult)
  have lg: "log 2 \<bar>?x\<bar> = log 2 \<bar>of_int m\<bar> + of_int e"
    unfolding ax using m0 by (simp add: log_mult)
  have "0 \<le> log 2 \<bar>of_int m :: real\<bar>" using m1 by simp
  then have k0: "0 \<le> k" unfolding k_def by simp
  have "log 2 \<bar>of_int m :: real\<bar> < 53"
    using mr m1 by (simp add: log_less_iff powr_realpow)
  then have k52: "k \<le> 52" unfolding k_def by (simp add: floor_le_iff)
  have fl_lg: "\<lfloor>log 2 \<bar>?x\<bar>\<rfloor> = k + e"
    unfolding lg k_def by simp
  have emax: "max (\<lfloor>log 2 \<bar>?x\<bar>\<rfloor> - 52) (- 1074) = E"
    unfolding fl_lg E_def by simp
  have Ee: "E \<le> e" unfolding E_def using k52 e by simp
  have "2 powr (of_int e :: real) = 2 powr of_int (e - E) * 2 powr of_int E"
    by (simp flip: powr_add)
  also have "2 powr (of_int (e - E) :: real) = 2 ^ nat (e - E)"
    using Ee by (simp add: powr_realpow [symmetric])
  finally have split: "2 powr (of_int e :: real) = 2 ^ nat (e - E) * 2 powr of_int E" .
  have q: "?x / 2 powr of_int E = of_int (m * 2 ^ nat (e - E))"
    unfolding split by simp
  have bk: "of_int (m * 2 ^ nat (e - E)) * 2 powr of_int E = ?x"
    unfolding split by simp
  have "2 powr (of_int e :: real) \<le> 2 powr of_int 971"
    by (rule powr_mono) (use e in simp_all)
  then have "\<bar>of_int m\<bar> * 2 powr of_int e \<le> \<bar>of_int m :: real\<bar> * 2 powr of_int 971"
    by (rule mult_left_mono) simp
  also have "\<dots> < 2 ^ 53 * 2 powr of_int 971"
    by (rule mult_strict_right_mono [OF mr]) simp
  also have "(2::real) ^ 53 * 2 powr of_int 971 = 2 ^ 1024"
    by (simp add: powr_realpow [symmetric] flip: powr_add)
  finally have small: "\<not> 2 ^ 1024 \<le> \<bar>?x\<bar>" unfolding ax by simp
  show ?thesis
    unfolding fl_def Let_def emax q rne_of_int bk using x0 small by simp
qed

lemma fl_exact_div:
  fixes m :: int and n :: nat
  assumes "m \<noteq> 0" "\<bar>m\<bar> < 2 ^ 53" "n \<le> 1074"
  shows "fl (of_int m / 2 ^ n) = Fin (of_int m / 2 ^ n)"
proof -
  have p: "2 powr (- real n) = 1 / 2 ^ n"
    by (simp add: powr_minus_divide powr_realpow)
  show ?thesis
    using fl_exact_powr [of m "- int n"] assms by (simp add: p)
qed

lemma fl_exact_mult:
  fixes m :: int and n :: nat
  assumes "m \<noteq> 0" "\<bar>m\<bar> < 2 ^ 53" "n \<le> 971"
  shows "fl (of_int m * 2 ^ n) = Fin (of_int m * 2 ^ n)"
proof -
  have p: "2 powr (real n) = 2 ^ n"
    by (simp add: powr_realpow)
  show ?thesis
    using fl_exact_powr [of m "int n"] assms by (simp add: p)
qed

text \<open>A result of absolute value at most 2^-1075, half of the least positive double, is rounded to zero.\<close>

lemma fl_underflow:
  assumes "\<bar>x\<bar> \<le> 1 / 2 ^ 1075"
  shows "fl x = Fin 0"
proof (cases "x = 0")
  case True
  then show ?thesis by (simp add: fl_def)
next
  case False
  then have pos: "0 < \<bar>x\<bar>" by simp
  have "(1 / 2 ^ 1075 :: real) = 2 powr of_int (- 1075)"
    by (simp add: powr_minus_divide)
  with assms have "\<bar>x\<bar> \<le> 2 powr of_int (- 1075)" by simp
  then have "log 2 \<bar>x\<bar> \<le> of_int (- 1075)" using pos by (subst log_le_iff) simp_all
  then have "\<lfloor>log 2 \<bar>x\<bar>\<rfloor> \<le> \<lfloor>of_int (- 1075) :: real\<rfloor>" by (rule floor_mono)
  then have "\<lfloor>log 2 \<bar>x\<bar>\<rfloor> \<le> - 1075" by simp
  then have emax: "max (\<lfloor>log 2 \<bar>x\<bar>\<rfloor> - 52) (- 1074) = - 1074" by linarith
  have p: "2 powr (of_int (- 1074) :: real) = 1 / 2 ^ 1074"
    by (simp add: powr_minus_divide)
  have "\<bar>x / (1 / 2 ^ 1074)\<bar> = \<bar>x\<bar> * 2 ^ 1074" by (simp add: abs_mult)
  also have "\<dots> \<le> (1 / 2 ^ 1075) * 2 ^ 1074" using assms by (intro mult_right_mono) simp_all
  also have "\<dots> = 1 / 2" by simp
  finally have "rne (x / (1 / 2 ^ 1074)) = 0" by (rule rne_small)
  then show ?thesis
    unfolding fl_def Let_def emax p using False by simp
qed

text \<open>
  A result whose significand, scaled to 53 bits, lies between 2^52 and 2^53 is rounded
  to the nearest integer multiple of the scale.
\<close>

lemma rne_close: "\<bar>of_int (rne q) - q\<bar> \<le> 1 / 2"
proof -
  have "of_int \<lfloor>q\<rfloor> \<le> q" "q < of_int \<lfloor>q\<rfloor> + 1" by linarith+
  then show ?thesis by (auto simp: rne_def Let_def)
qed

lemma fl_nearest:
  fixes e :: int
  assumes e: "- 1074 \<le> e" "e \<le> 970"
    and lo: "2 ^ 52 * 2 powr of_int e \<le> \<bar>x\<bar>"
    and hi: "\<bar>x\<bar> < 2 ^ 53 * 2 powr of_int e"
  shows "fl x = Fin (of_int (rne (x / 2 powr of_int e)) * 2 powr of_int e)"
proof -
  have pe: "0 < 2 powr (of_int e :: real)" by simp
  have "0 < 2 ^ 52 * 2 powr (of_int e :: real)" by simp
  with lo have pos: "0 < \<bar>x\<bar>" by linarith
  then have x0: "x \<noteq> 0" by simp
  have "2 powr (52 + of_int e) = 2 ^ 52 * 2 powr (of_int e :: real)"
    by (simp add: powr_add powr_realpow [symmetric])
  with lo have "2 powr (52 + of_int e) \<le> \<bar>x\<bar>" by simp
  then have l1: "52 + of_int e \<le> log 2 \<bar>x\<bar>" using pos by (simp add: le_log_iff)
  have "2 powr (53 + of_int e) = 2 ^ 53 * 2 powr (of_int e :: real)"
    by (simp add: powr_add powr_realpow [symmetric])
  with hi have "\<bar>x\<bar> < 2 powr (53 + of_int e)" by simp
  then have l2: "log 2 \<bar>x\<bar> < 53 + of_int e" using pos by (simp add: log_less_iff)
  have "\<lfloor>log 2 \<bar>x\<bar>\<rfloor> = 52 + e"
    using l1 l2 by (simp add: floor_eq_iff)
  then have emax: "max (\<lfloor>log 2 \<bar>x\<bar>\<rfloor> - 52) (- 1074) = e" using e by simp
  let ?q = "x / 2 powr of_int e"
  have "\<bar>?q\<bar> = \<bar>x\<bar> / 2 powr of_int e" by simp
  also have "\<dots> < 2 ^ 53" using hi pe by (simp add: field_simps)
  finally have q: "\<bar>?q\<bar> < 2 ^ 53" .
  have "\<bar>of_int (rne ?q)\<bar> \<le> \<bar>of_int (rne ?q) - ?q\<bar> + \<bar>?q\<bar>" by linarith
  also have "\<dots> < 1 / 2 + 2 ^ 53" using rne_close [of ?q] q by linarith
  finally have "\<bar>of_int (rne ?q) :: real\<bar> < 2 ^ 53 + 1" by simp
  then have "\<bar>rne ?q\<bar> < 2 ^ 53 + 1"
    by (metis (mono_tags) of_int_abs of_int_less_iff of_int_numeral of_int_power of_int_add of_int_1)
  then have "\<bar>rne ?q\<bar> \<le> 2 ^ 53" by simp
  then have r: "\<bar>of_int (rne ?q) :: real\<bar> \<le> 2 ^ 53"
    by (metis (mono_tags) of_int_abs of_int_le_iff of_int_numeral of_int_power)
  have "2 powr (of_int e :: real) \<le> 2 powr of_int 970"
    by (rule powr_mono) (use e in simp_all)
  then have "\<bar>of_int (rne ?q) :: real\<bar> * 2 powr of_int e \<le> 2 ^ 53 * 2 powr of_int 970"
    using r by (intro mult_mono) simp_all
  then have "\<bar>of_int (rne ?q) * 2 powr of_int e :: real\<bar> \<le> 2 ^ 53 * 2 powr of_int 970"
    by (simp add: abs_mult)
  also have "(2::real) ^ 53 * 2 powr of_int 970 = 2 ^ 1023"
    by (simp add: powr_realpow [symmetric] flip: powr_add)
  also have "(2::real) ^ 1023 < 2 ^ 1024" by simp
  finally have small: "\<not> 2 ^ 1024 \<le> \<bar>of_int (rne ?q) * 2 powr of_int e :: real\<bar>" by simp
  show ?thesis
    unfolding fl_def Let_def emax using x0 small by simp
qed

lemma fl_nearest_div:
  fixes n :: nat
  assumes "n \<le> 1074" "2 ^ 52 \<le> \<bar>x\<bar> * 2 ^ n" "\<bar>x\<bar> * 2 ^ n < 2 ^ 53"
  shows "fl x = Fin (of_int (rne (x * 2 ^ n)) / 2 ^ n)"
proof -
  have p: "2 powr (- real n) = 1 / 2 ^ n"
    by (simp add: powr_minus_divide powr_realpow)
  show ?thesis
    using fl_nearest [of "- int n" x] assms by (simp add: p field_simps)
qed

lemma fl_nearest_mult:
  fixes n :: nat
  assumes "n \<le> 970" "2 ^ 52 * 2 ^ n \<le> \<bar>x\<bar>" "\<bar>x\<bar> < 2 ^ 53 * 2 ^ n"
  shows "fl x = Fin (of_int (rne (x / 2 ^ n)) * 2 ^ n)"
proof -
  have p: "2 powr (real n) = 2 ^ n"
    by (simp add: powr_realpow)
  show ?thesis
    using fl_nearest [of "int n" x] assms by (simp add: p)
qed


text \<open>
  Rounding commutes with the change of sign, and a positive result above half of the
  least positive double is rounded to a positive float, at least half of the result.
\<close>

lemma rne_minus: "rne (- q) = - rne q"
proof -
  define f where "f = \<lfloor>q\<rfloor>"
  define d where "d = q - of_int f"
  have d: "0 \<le> d" "d < 1" unfolding d_def f_def by linarith+
  have q: "q = of_int f + d" unfolding d_def by simp
  show ?thesis
  proof (cases "d = 0")
    case True
    then have "q = of_int f" using q by simp
    then show ?thesis by (simp add: rne_of_int flip: of_int_minus)
  next
    case False
    with d have dpos: "0 < d" by simp
    have fm: "\<lfloor>- q\<rfloor> = - f - 1"
      unfolding q using dpos d by (simp add: floor_eq_iff)
    have dm: "- q - of_int (- f - 1) = 1 - d" unfolding q by simp
    have r: "rne q = (if d < 1 / 2 then f else if 1 / 2 < d then f + 1
                      else if even f then f else f + 1)"
      unfolding rne_def Let_def f_def [symmetric] d_def [symmetric] ..
    have rm: "rne (- q) = (if 1 - d < 1 / 2 then - f - 1 else if 1 / 2 < 1 - d then - f
                      else if even (- f - 1) then - f - 1 else - f)"
      unfolding rne_def Let_def fm dm by simp
    show ?thesis unfolding r rm by auto
  qed
qed

lemma fl_minus: "fl (- x) = pf_neg (fl x)"
  by (simp add: fl_def Let_def rne_minus)

lemma rne_half: "1 / 2 < q \<Longrightarrow> q / 2 \<le> of_int (rne q)"
proof -
  assume a: "1 / 2 < q"
  have b: "of_int \<lfloor>q\<rfloor> \<le> q" "q < of_int \<lfloor>q\<rfloor> + 1" by linarith+
  have f0: "0 \<le> \<lfloor>q\<rfloor>" using a by simp
  show ?thesis
  proof (cases "\<lfloor>q\<rfloor> = 0")
    case True
    with a b show ?thesis by (simp add: rne_def Let_def)
  next
    case False
    with f0 have "1 \<le> \<lfloor>q\<rfloor>" by linarith
    then have "(1::real) \<le> of_int \<lfloor>q\<rfloor>" by linarith
    then have "q / 2 \<le> of_int \<lfloor>q\<rfloor>" using b by linarith
    moreover have "\<lfloor>q\<rfloor> \<le> rne q" by (simp add: rne_def Let_def)
    then have "(of_int \<lfloor>q\<rfloor> :: real) \<le> of_int (rne q)" by linarith
    ultimately show ?thesis by linarith
  qed
qed

lemma fl_positive:
  assumes "1 / 2 ^ 1075 < x"
  shows "fl x = PInf \<or> (\<exists>y. fl x = Fin y \<and> x / 2 \<le> y)"
proof -
  have "(0::real) < 1 / 2 ^ 1075" by simp
  with assms have x: "0 < x" by linarith
  define e where "e = max (\<lfloor>log 2 \<bar>x\<bar>\<rfloor> - 52) (- 1074)"
  define q where "q = x / 2 powr of_int e"
  have pe: "0 < 2 powr (of_int e :: real)" by simp
  have "1 / 2 < q"
  proof (cases "e = - 1074")
    case True
    have p: "2 powr (of_int (- 1074) :: real) = 1 / 2 ^ 1074"
      by (simp add: powr_minus_divide)
    have "(1 / 2 ^ 1075) * 2 ^ 1074 < x * (2 ^ 1074 :: real)"
      using assms by (intro mult_strict_right_mono) simp_all
    then show ?thesis unfolding q_def True p by simp
  next
    case False
    then have e: "e = \<lfloor>log 2 \<bar>x\<bar>\<rfloor> - 52" unfolding e_def by linarith
    have "of_int \<lfloor>log 2 x\<rfloor> \<le> log 2 x" by simp
    then have "2 powr of_int \<lfloor>log 2 x\<rfloor> \<le> x" using x by (simp add: powr_le_iff)
    moreover have "2 powr (of_int \<lfloor>log 2 x\<rfloor> :: real)
                     = 2 powr of_int (\<lfloor>log 2 x\<rfloor> - e) * 2 powr of_int e"
      by (simp flip: powr_add)
    moreover have "2 powr (of_int (\<lfloor>log 2 x\<rfloor> - e) :: real) = 2 ^ 52"
      unfolding e using x by simp
    ultimately have "2 ^ 52 * 2 powr of_int e \<le> x" by simp
    then have "2 ^ 52 \<le> q" unfolding q_def using pe by (simp add: field_simps)
    moreover have "(1 / 2 :: real) < 2 ^ 52" by simp
    ultimately show ?thesis by linarith
  qed
  then have "q / 2 \<le> of_int (rne q)" by (rule rne_half)
  then have "q / 2 * 2 powr of_int e \<le> of_int (rne q) * 2 powr of_int e"
    by (rule mult_right_mono) simp
  then have y: "x / 2 \<le> of_int (rne q) * 2 powr of_int e"
    unfolding q_def by simp
  show ?thesis
    using x y unfolding fl_def Let_def e_def [symmetric] q_def [symmetric] by auto
qed


section \<open>Properties of the marginal distributions\<close>

subsection \<open>The log-density outside the support\<close>

text \<open>
  The scenario of the specification holds when \<open>np.log(1.0)\<close> is 0: a uniform
  marginal on (0, 1) has log-density 0 at 0.5 and negative infinity at 1.5.
\<close>

lemma uniform_unit_interval:
  assumes "lg 1 = 0"
  shows "Uniform_log_pdf_eval lg \<lparr>lower = 0, upper = 1\<rparr> (1 / 2) = Inr (Fin 0)"
    and "Uniform_log_pdf_eval lg \<lparr>lower = 0, upper = 1\<rparr> (3 / 2) = Inr NInf"
proof -
  have a: "fl (- 1 / 2) = Fin (- 1 / 2)" "fl (1 / 2) = Fin (1 / 2)" "fl (- 1 / 4) = Fin (- 1 / 4)"
    "fl 1 = Fin 1" "fl (3 / 2) = Fin (3 / 2)" "fl (3 / 4) = Fin (3 / 4)"
    using fl_exact_div [of "- 1" 1] fl_exact_div [of 1 1] fl_exact_div [of "- 1" 2]
      fl_exact_div [of 1 0] fl_exact_div [of 3 1] fl_exact_div [of 3 2]
    by simp_all
  show "Uniform_log_pdf_eval lg \<lparr>lower = 0, upper = 1\<rparr> (1 / 2) = Inr (Fin 0)"
    using a assms by (simp add: Uniform_log_pdf_eval_def pf_sub_def pf_le_zero_def pf_div_def
        np_log_def)
  show "Uniform_log_pdf_eval lg \<lparr>lower = 0, upper = 1\<rparr> (3 / 2) = Inr NInf"
    using a by (simp add: Uniform_log_pdf_eval_def pf_sub_def pf_le_zero_def)
qed

text \<open>A negative point has log-density negative infinity under every half-normal marginal.\<close>

lemma halfnormal_negative_point:
  "x < 0 \<Longrightarrow> Halfnormal_log_pdf_eval lg h x = Inr NInf"
  by (simp add: Halfnormal_log_pdf_eval_def)

lemma pf_mul_neg_neg: "pf_mul (pf_neg p) (pf_neg q) = pf_mul p q"
  by (cases p; cases q) (simp_all add: pf_sign_def)

lemma product_of_positive_differences:
  assumes a: "1 / 2 ^ 1075 < a" and b: "1 / 2 ^ 1075 < b" and ab: "1 / 2 ^ 1073 < a * b"
  shows "\<not> pf_le_zero (pf_mul (fl a) (fl b))"
proof -
  have z: "(0::real) < 1 / 2 ^ 1075" by simp
  have a0: "0 < a" and b0: "0 < b" using a b z by linarith+
  from fl_positive [OF a] fl_positive [OF b]
  consider (inf) "fl a = PInf \<or> fl b = PInf"
    | (fin) a' b' where "fl a = Fin a'" "a / 2 \<le> a'" "fl b = Fin b'" "b / 2 \<le> b'"
    by blast
  then show ?thesis
  proof cases
    case inf
    from fl_positive [OF a] fl_positive [OF b] a0 b0 inf show ?thesis
      by (auto simp: pf_le_zero_def pf_sign_def)
  next
    case fin
    have "a / 2 * (b / 2) \<le> a' * b'"
      using fin a0 b0 by (intro mult_mono) simp_all
    moreover have "1 / 2 ^ 1075 < a / 2 * (b / 2)" using ab by simp
    ultimately have p: "1 / 2 ^ 1075 < a' * b'" by linarith
    with z have p0: "0 < a' * b'" by linarith
    from fl_positive [OF p] have "fl (a' * b') = PInf \<or> (\<exists>y. fl (a' * b') = Fin y \<and> 0 < y)"
      using p0 by (auto intro: less_le_trans [of 0 "a' * b' / 2"])
    then show ?thesis
      using fin by (auto simp: pf_le_zero_def)
  qed
qed

text \<open>
  Away from underflow the specification holds for \<open>Uniform\<close>: a point outside the
  closed interval between the bounds gets log-density negative infinity when its two
  differences from the bounds do not round to zero (the difference of two distinct
  doubles never does) and their product is above 2^-1073.
\<close>

lemma uniform_outside_support:
  assumes out: "x < min (lower u) (upper u) \<or> max (lower u) (upper u) < x"
    and da: "1 / 2 ^ 1075 < \<bar>x - upper u\<bar>" and db: "1 / 2 ^ 1075 < \<bar>x - lower u\<bar>"
    and prod: "1 / 2 ^ 1073 < (x - upper u) * (x - lower u)"
  shows "Uniform_log_pdf_eval lg u x = Inr NInf"
proof -
  have "\<not> pf_le_zero (pf_mul (fl (x - upper u)) (fl (x - lower u)))"
  proof (cases "max (lower u) (upper u) < x")
    case True
    then have "0 < x - upper u" "0 < x - lower u" by simp_all
    with da db prod show ?thesis
      by (intro product_of_positive_differences) simp_all
  next
    case False
    with out have "x < min (lower u) (upper u)" by auto
    then have n: "0 < upper u - x" "0 < lower u - x" by simp_all
    have "\<not> pf_le_zero (pf_mul (fl (upper u - x)) (fl (lower u - x)))"
    proof (rule product_of_positive_differences)
      show "1 / 2 ^ 1075 < upper u - x" using da n by simp
      show "1 / 2 ^ 1075 < lower u - x" using db n by simp
      have "(upper u - x) * (lower u - x) = (x - upper u) * (x - lower u)" by (simp add: algebra_simps)
      with prod show "1 / 2 ^ 1073 < (upper u - x) * (lower u - x)" by simp
    qed
    moreover have "fl (x - upper u) = pf_neg (fl (upper u - x))"
      using fl_minus [of "upper u - x"] by simp
    moreover have "fl (x - lower u) = pf_neg (fl (lower u - x))"
      using fl_minus [of "lower u - x"] by simp
    ultimately show ?thesis by (simp add: pf_mul_neg_neg)
  qed
  then show ?thesis
    by (simp add: Uniform_log_pdf_eval_def pf_sub_def)
qed

text \<open>
  C9 on uniform marginals with small bounds.  The first marginal has the bounds 0 and
  2^-700, and the point 2^-699 lies above both.  The differences of the point from
  the bounds are 2^-700 and 2^-699; their product, 2^-1399, is below half of the least
  positive double and is rounded to zero, so the test \<open><= 0\<close> of the support holds and
  the method returns \<open>np.log(2^700)\<close>, a finite value, where the specification asks
  for negative infinity.  The second marginal has the bounds 0 and 1e-200, and the
  point is 2e-200: as doubles these are 1723641332219371 / 2^715 and its double, the
  product of the differences underflows again, and the method returns \<open>np.log\<close> of
  the double 1e+200, which is 2941796710330669 * 2^613.
\<close>

theorem C9_uniform_product_underflow:
  "(0 :: real) < 1 / 2 ^ 699 \<and> (1 / 2 ^ 700 :: real) < 1 / 2 ^ 699
   \<and> Uniform_log_pdf_eval lg \<lparr>lower = 0, upper = 1 / 2 ^ 700\<rparr> (1 / 2 ^ 699)
       = Inr (Fin (lg (2 ^ 700)))
   \<and> (0 :: real) < 1723641332219371 / 2 ^ 714
   \<and> (1723641332219371 / 2 ^ 715 :: real) < 1723641332219371 / 2 ^ 714
   \<and> Uniform_log_pdf_eval lg \<lparr>lower = 0, upper = 1723641332219371 / 2 ^ 715\<rparr>
         (1723641332219371 / 2 ^ 714)
       = Inr (Fin (lg (2941796710330669 * 2 ^ 613)))"
proof -
  have a: "pf_sub (Fin (1 / 2 ^ 699)) (Fin (1 / 2 ^ 700)) = Fin (1 / 2 ^ 700)"
    using fl_exact_div [of 1 700] by (simp add: pf_sub_def)
  have b: "pf_sub (Fin (1 / 2 ^ 699)) (Fin 0) = Fin (1 / 2 ^ 699)"
    using fl_exact_div [of 1 699] by (simp add: pf_sub_def)
  have "fl (1 / 2 ^ 700 * (1 / 2 ^ 699)) = Fin 0"
    by (rule fl_underflow) simp
  then have c: "pf_mul (Fin (1 / 2 ^ 700)) (Fin (1 / 2 ^ 699)) = Fin 0"
    by simp
  have d: "pf_sub (Fin (1 / 2 ^ 700)) (Fin 0) = Fin (1 / 2 ^ 700)"
    using fl_exact_div [of 1 700] by (simp add: pf_sub_def)
  have e: "pf_div (Fin 1) (Fin (1 / 2 ^ 700)) = Inr (Fin (2 ^ 700))"
    using fl_exact_mult [of 1 700] by (simp add: pf_div_def)
  have first: "Uniform_log_pdf_eval lg \<lparr>lower = 0, upper = 1 / 2 ^ 700\<rparr> (1 / 2 ^ 699)
          = Inr (Fin (lg (2 ^ 700)))"
    using a b c d e by (simp add: Uniform_log_pdf_eval_def pf_le_zero_def np_log_def)
  have a': "pf_sub (Fin (1723641332219371 / 2 ^ 714)) (Fin (1723641332219371 / 2 ^ 715))
             = Fin (1723641332219371 / 2 ^ 715)"
    using fl_exact_div [of 1723641332219371 715] by (simp add: pf_sub_def)
  have b': "pf_sub (Fin (1723641332219371 / 2 ^ 714)) (Fin 0) = Fin (1723641332219371 / 2 ^ 714)"
    using fl_exact_div [of 1723641332219371 714] by (simp add: pf_sub_def)
  have "fl (1723641332219371 / 2 ^ 715 * (1723641332219371 / 2 ^ 714)) = Fin 0"
    by (rule fl_underflow) simp
  then have c': "pf_mul (Fin (1723641332219371 / 2 ^ 715)) (Fin (1723641332219371 / 2 ^ 714))
                  = Fin 0"
    by simp
  have d': "pf_sub (Fin (1723641332219371 / 2 ^ 715)) (Fin 0) = Fin (1723641332219371 / 2 ^ 715)"
    using fl_exact_div [of 1723641332219371 715] by (simp add: pf_sub_def)
  have "rne (2 ^ 103 / 1723641332219371) = 5883593420661338"
    by (simp add: rne_def Let_def)
  then have "fl (2 ^ 715 / 1723641332219371) = Fin (2941796710330669 * 2 ^ 613)"
    using fl_nearest_mult [of 612 "2 ^ 715 / 1723641332219371"] by simp
  then have e': "pf_div (Fin 1) (Fin (1723641332219371 / 2 ^ 715))
                  = Inr (Fin (2941796710330669 * 2 ^ 613))"
    by (simp add: pf_div_def)
  have second: "Uniform_log_pdf_eval lg \<lparr>lower = 0, upper = 1723641332219371 / 2 ^ 715\<rparr>
         (1723641332219371 / 2 ^ 714) = Inr (Fin (lg (2941796710330669 * 2 ^ 613)))"
    using a' b' c' d' e' by (simp add: Uniform_log_pdf_eval_def pf_le_zero_def np_log_def)
  from first second show ?thesis by simp
qed

subsection \<open>Construction\<close>

text \<open>
  C6 as the specification states it fails: a uniform marginal whose lower bound exceeds
  its upper bound is constructed without any error.
\<close>

theorem C6_uniform_bounds_counterexample:
  "\<not> (\<forall>lo up. lo \<ge> up \<longrightarrow> isl (Uniform_init lo up))"
proof
  assume "\<forall>lo up. lo \<ge> up \<longrightarrow> isl (Uniform_init lo up)"
  then have "isl (Uniform_init 1 0)" by simp
  then show False by (simp add: Uniform_init_def)
qed

lemma truncated_exponential_cases:
  "TruncatedExponentialDist_init la lo up =
     (if la = Fin 0 \<or> pf_quot (Fin 1) la = Fin 0 then Inl ZeroDivisionError
      else Inr \<lparr>te_lower = lo, te_upper = up, te_lamda = la, te_scale = pf_quot (Fin 1) la,
                te_loc = lo, te_b = pf_quot (pf_sub up lo) (pf_quot (Fin 1) la)\<rparr>)"
  by (simp add: TruncatedExponentialDist_init_def pf_div_def)

text \<open>
  C6, amended.  The constructors of the uniform and of the truncated marginals raise
  no error about their bounds.  \<open>Uniform\<close> and \<open>TrunNormal\<close> are constructed from any
  arguments and store them as given, whatever the order of the two bounds.
  \<open>TruncatedExponentialDist\<close> either raises \<open>ZeroDivisionError\<close>, from one of its two
  divisions, or returns an object that stores the rate and the two bounds as given,
  again whatever their order.
\<close>

theorem C6_no_error_about_the_bounds:
  "Uniform_init lo up = Inr \<lparr>lower = lo, upper = up\<rparr>
   \<and> TrunNormal_init m s ta tb = Inr \<lparr>tn_mu = m, tn_sig = s, tn_a = ta, tn_b = tb\<rparr>
   \<and> (TruncatedExponentialDist_init la tlo tup = Inl ZeroDivisionError
      \<or> (\<exists>sc b'. TruncatedExponentialDist_init la tlo tup =
            Inr \<lparr>te_lower = tlo, te_upper = tup, te_lamda = la, te_scale = sc,
                 te_loc = tlo, te_b = b'\<rparr>))"
proof (intro conjI)
  show "Uniform_init lo up = Inr \<lparr>lower = lo, upper = up\<rparr>"
    by (simp add: Uniform_init_def)
  show "TrunNormal_init m s ta tb = Inr \<lparr>tn_mu = m, tn_sig = s, tn_a = ta, tn_b = tb\<rparr>"
    by (simp add: TrunNormal_init_def)
  show "TruncatedExponentialDist_init la tlo tup = Inl ZeroDivisionError
      \<or> (\<exists>sc b'. TruncatedExponentialDist_init la tlo tup =
            Inr \<lparr>te_lower = tlo, te_upper = tup, te_lamda = la, te_scale = sc,
                 te_loc = tlo, te_b = b'\<rparr>)"
    unfolding truncated_exponential_cases by simp
qed

text \<open>
  Three constructions with the lower bound above the upper one: a rate of 2 gives an
  object with a negative shape parameter, and the rates zero and infinity raise
  \<open>ZeroDivisionError\<close>, the first at \<open>1 / lamda\<close> and the second at the division by
  the scale, which is zero.
\<close>

lemma truncated_exponential_examples:
  "TruncatedExponentialDist_init (Fin 2) (Fin 3) (Fin 1) =
     Inr \<lparr>te_lower = Fin 3, te_upper = Fin 1, te_lamda = Fin 2, te_scale = Fin (1 / 2),
          te_loc = Fin 3, te_b = Fin (- 4)\<rparr>"
  "TruncatedExponentialDist_init (Fin 0) (Fin 3) (Fin 1) = Inl ZeroDivisionError"
  "TruncatedExponentialDist_init PInf (Fin 3) (Fin 1) = Inl ZeroDivisionError"
proof -
  have a: "fl (1 / 2) = Fin (1 / 2)" "fl (- 2) = Fin (- 2)" "fl (- 4) = Fin (- 4)"
    using fl_exact_div [of 1 1] fl_exact_div [of "- 2" 0] fl_exact_div [of "- 4" 0]
    by simp_all
  show "TruncatedExponentialDist_init (Fin 2) (Fin 3) (Fin 1) =
     Inr \<lparr>te_lower = Fin 3, te_upper = Fin 1, te_lamda = Fin 2, te_scale = Fin (1 / 2),
          te_loc = Fin 3, te_b = Fin (- 4)\<rparr>"
    using a by (simp add: truncated_exponential_cases pf_sub_def)
  show "TruncatedExponentialDist_init (Fin 0) (Fin 3) (Fin 1) = Inl ZeroDivisionError"
    by (simp add: truncated_exponential_cases)
  show "TruncatedExponentialDist_init PInf (Fin 3) (Fin 1) = Inl ZeroDivisionError"
    by (simp add: truncated_exponential_cases)
qed

text \<open>
  The values of the scale and of the shape parameter are rounded: a rate of 49 with the
  bounds 0 and 1 gives the scale 0.02040816326530612 and the shape parameter
  49.00000000000001.
\<close>

lemma truncated_exponential_rate_49:
  "TruncatedExponentialDist_init (Fin 49) (Fin 0) (Fin 1) =
     Inr \<lparr>te_lower = Fin 0, te_upper = Fin 1, te_lamda = Fin 49,
          te_scale = Fin (5882252574524729 / 2 ^ 58), te_loc = Fin 0,
          te_b = Fin (6896136929411073 / 2 ^ 47)\<rparr>"
  "(6896136929411073 / 2 ^ 47 :: real) \<noteq> 49"
proof -
  have "rne (2 ^ 58 / 49) = 5882252574524729"
    by (simp add: rne_def Let_def)
  then have a: "fl (1 / 49) = Fin (5882252574524729 / 2 ^ 58)"
    using fl_nearest_div [of 58 "1 / 49"] by simp
  have b: "fl 1 = Fin 1"
    using fl_exact_div [of 1 0] by simp
  have "rne (2 ^ 105 / 5882252574524729) = 6896136929411073"
    by (simp add: rne_def Let_def)
  then have c: "fl (2 ^ 58 / 5882252574524729) = Fin (6896136929411073 / 2 ^ 47)"
    using fl_nearest_div [of 47 "2 ^ 58 / 5882252574524729"] by simp
  show "TruncatedExponentialDist_init (Fin 49) (Fin 0) (Fin 1) =
     Inr \<lparr>te_lower = Fin 0, te_upper = Fin 1, te_lamda = Fin 49,
          te_scale = Fin (5882252574524729 / 2 ^ 58), te_loc = Fin 0,
          te_b = Fin (6896136929411073 / 2 ^ 47)\<rparr>"
    using a b c by (simp add: truncated_exponential_cases pf_sub_def)
  show "(6896136929411073 / 2 ^ 47 :: real) \<noteq> 49" by simp
qed

theorem C6_no_error_about_the_bounds_witness:
  "Uniform_init 3 1 = Inr \<lparr>lower = 3, upper = 1\<rparr>
   \<and> TrunNormal_init 0 1 3 1 = Inr \<lparr>tn_mu = 0, tn_sig = 1, tn_a = 3, tn_b = 1\<rparr>
   \<and> TruncatedExponentialDist_init (Fin 2) (Fin 3) (Fin 1) =
       Inr \<lparr>te_lower = Fin 3, te_upper = Fin 1, te_lamda = Fin 2, te_scale = Fin (1 / 2),
            te_loc = Fin 3, te_b = Fin (- 4)\<rparr>"
  using C6_no_error_about_the_bounds [of 3 1 0 1 3 1 "Fin 2" "Fin 3" "Fin 1"]
    truncated_exponential_examples(1)
  by simp


section \<open>Basic facts about the model of \<open>ERANataf\<close>\<close>

lemma example_lib_sel [simp]:
  "linalg_norm example_lib = frobenius"
  "cholesky example_lib = (\<lambda>m. chol_rows m [])"
  "solve example_lib = (\<lambda>a m. forward_subst a m [])"
  "norm_cdf example_lib = example_cdf"
  "norm_ppf example_lib = example_ppf"
  "norm_pdf example_lib = example_pdf"
  "mvn_pdf example_lib = (\<lambda>U mu cov. map (\<lambda>u. prod_list (map example_pdf u)) U)"
  "mvn_cdf example_lib = (\<lambda>U mu cov. map (\<lambda>u. prod_list (map example_cdf u)) U)"
  "brentq example_lib = (\<lambda>f lo hi. Inl RootNotConverged)"
  "fsolve example_lib = (\<lambda>f x0. (x0, False))"
  "rand example_lib = (\<lambda>k. 1 / 2)"
  "randn example_lib = (\<lambda>d n. replicate d (replicate n 0))"
  by (simp_all add: example_lib_def)

lemma symmetric_iff:
  "symmetric m \<longleftrightarrow> (\<forall>i<length m. \<forall>j<length m. m ! i ! j = m ! j ! i)"
  by (auto simp: symmetric_def list_all_iff)


lemma check_correlation_cases:
  "check_correlation lib M R =
     (if \<not> finite_moments M then Inl InvalidMoments
      else if np_cholesky lib R = None then Inl NotPositiveDefinite
      else if \<not> symmetric R then Inl NotSymmetric
      else if \<not> unit_diagonal R then Inl DiagonalNotOne
      else Inr ())"
  by (simp add: check_correlation_def split: option.splits)


lemma identity_2: "identity (Suc (Suc 0)) = [[1, 0], [0, 1]]" "identity 2 = [[1, 0], [0, 1]]"
  by (simp_all add: identity_def numeral_2_eq_2)

lemma chol_identity_2: "np_cholesky example_lib [[1, 0], [0, 1]] = Some [[1, 0], [0, 1]]"
  by (simp add: np_cholesky_def square_def is_matrix_def)

lemma finite_uniform01 [simp]: "isfinite (mean uniform01)" "isfinite (std uniform01)"
  by (simp_all add: uniform01_def isfinite_def)


section \<open>The checks of the correlation matrix\<close>





section \<open>A correlation matrix close to the identity\<close>

lemma broadcast_same_size:
  "length R = n \<Longrightarrow> broadcast_sub R (identity n) = Inr (map2 (map2 (-)) R (identity n))"
  by (simp add: broadcast_sub_def identity_def)

text \<open>The double 1e-05 lies above the number 1e-5.\<close>

lemma norm_tolerance_above: "1 / 10 ^ 5 \<le> norm_tolerance"
  by (simp add: norm_tolerance_def)

text \<open>
  C4.  When the correlation matrix has the size of the list of marginals and the
  Frobenius norm of its difference from the identity, as \<open>np.linalg.norm\<close> returns it,
  is at most the double 1e-05, the constructor runs its checks, takes the identity as
  the correlation matrix in standard normal space and factorises it: no entry of the
  given matrix and no root search enters the result.
\<close>

theorem C4_near_identity_skips_solver:
  assumes len: "length R = length M"
    and near: "linalg_norm lib (map2 (map2 (-)) R (identity (length M))) \<le> norm_tolerance"
  shows "ERANataf_init lib M R =
           then_do (check_correlation lib M R) (\<lambda>_.
             case np_cholesky lib (identity (length M)) of
               None \<Rightarrow> Inl TransformedNotPositiveDefinite
             | Some L \<Rightarrow> Inr \<lparr>Marginals = M, Rho_X = R, Rho_Z = identity (length M), A = L\<rparr>)"
proof -
  have "broadcast_sub R (identity (length M)) = Inr (map2 (map2 (-)) R (identity (length M)))"
    using len by (rule broadcast_same_size)
  with near show ?thesis
    by (simp add: ERANataf_init_def Let_def)
qed

text \<open>
  The same for a library whose norm is the Frobenius norm over the reals, and a matrix
  within 1e-5 of the identity in that norm.
\<close>

lemma near_identity_over_the_reals:
  assumes len: "length R = length M"
    and exact: "linalg_norm lib = frobenius"
    and near: "frobenius (map2 (map2 (-)) R (identity (length M))) \<le> 1 / 10 ^ 5"
  shows "ERANataf_init lib M R =
           then_do (check_correlation lib M R) (\<lambda>_.
             case np_cholesky lib (identity (length M)) of
               None \<Rightarrow> Inl TransformedNotPositiveDefinite
             | Some L \<Rightarrow> Inr \<lparr>Marginals = M, Rho_X = R, Rho_Z = identity (length M), A = L\<rparr>)"
proof -
  have b: "broadcast_sub R (identity (length M)) = Inr (map2 (map2 (-)) R (identity (length M)))"
    using len by (rule broadcast_same_size)
  from near norm_tolerance_above
  have "linalg_norm lib (map2 (map2 (-)) R (identity (length M))) \<le> norm_tolerance"
    unfolding exact by (rule order_trans)
  with b show ?thesis
    by (simp add: ERANataf_init_def Let_def)
qed

lemma near_example:
  "linalg_norm example_lib (map2 (map2 (-)) [[1, 1 / 1000000], [1 / 1000000, 1]] (identity 2))
     \<le> norm_tolerance"
proof -
  have "sqrt (2 * (1 / 1000000)\<^sup>2) \<le> norm_tolerance"
    by (rule real_le_lsqrt) (simp_all add: power2_eq_square norm_tolerance_def)
  then show ?thesis by (simp add: frobenius_def identity_2)
qed

lemma check_example:
  "check_correlation example_lib [uniform01, uniform01] [[1, 1 / 1000000], [1 / 1000000, 1]]
     = Inr ()"
  by (simp add: check_correlation_def finite_moments_def
      np_cholesky_def square_def is_matrix_def symmetric_def unit_diagonal_def upt_rec_numeral)

theorem C4_near_identity_skips_solver_witness:
  "ERANataf_init example_lib [uniform01, uniform01] [[1, 1 / 1000000], [1 / 1000000, 1]] =
     Inr \<lparr>Marginals = [uniform01, uniform01], Rho_X = [[1, 1 / 1000000], [1 / 1000000, 1]],
          Rho_Z = [[1, 0], [0, 1]], A = [[1, 0], [0, 1]]\<rparr>"
proof -
  have "length [[1, 1 / 1000000], [1 / 1000000, 1::real]] = length [uniform01, uniform01]"
    by simp
  from C4_near_identity_skips_solver [OF this, of example_lib] near_example show ?thesis
    by (simp add: check_example identity_2 chol_identity_2)
qed


section \<open>Discrete marginals\<close>

lemma has_discrete_iff:
  "has_discrete M \<longleftrightarrow>
     (\<exists>m\<in>set M. Name m \<in> {''binomial'', ''geometric'', ''negativebinomial'', ''poisson''})"
  by (auto simp: has_discrete_def list_ex_iff discrete_names_def)

lemma cdf_not_discrete_error: "ERANataf_cdf lib self X \<noteq> Inl DiscreteMarginal"
  by (auto simp: ERANataf_cdf_def check_dimensions_def Let_def then_do_def
      split: ndarray.splits sum.splits if_splits)

lemma cdf_returns:
  "check_dimensions (length (Marginals self)) X = Inr X'
     \<Longrightarrow> \<exists>v. ERANataf_cdf lib self X = Inr v"
  by (simp add: ERANataf_cdf_def Let_def)

lemma init_coin:
  "ERANataf_init example_lib [coin] [[1]] =
     Inr \<lparr>Marginals = [coin], Rho_X = [[1]], Rho_Z = [[1]], A = [[1]]\<rparr>"
  by (simp add: ERANataf_init_def check_correlation_def finite_moments_def coin_def isfinite_def
      np_cholesky_def square_def is_matrix_def symmetric_def unit_diagonal_def
      broadcast_sub_def identity_def frobenius_def norm_tolerance_def)

lemma cdf_coin:
  "ERANataf_cdf example_lib \<lparr>Marginals = [coin], Rho_X = [[1]], Rho_Z = [[1]], A = [[1]]\<rparr>
     (Arr1 [0]) = Inr (Arr0 (1 / 2))"
  by (simp add: ERANataf_cdf_def check_dimensions_def ncols_def X_to_U_columns_def zeros_def
      set_col_def col_def coin_def example_ppf_def example_cdf_def scalar_or_vector_def)

text \<open>
  C1 as the specification states it fails for \<open>cdf\<close>: the joint distribution of one
  coin toss, a marginal of the binomial family, is constructed, and its \<open>cdf\<close> at 0
  returns 1/2.
\<close>

theorem C1_cdf_accepts_discrete_counterexample:
  "Name coin = ''binomial''
   \<and> then_do (ERANataf_init example_lib [coin] [[1]])
        (\<lambda>self. ERANataf_cdf example_lib self (Arr1 [0])) = Inr (Arr0 (1 / 2))"
  by (simp add: init_coin cdf_coin) (simp add: coin_def)

text \<open>
  C1, amended.  When a marginal belongs to one of the four discrete families, \<open>X2U\<close>
  and \<open>pdf\<close> raise the error of the discrete marginal, whatever the point and the
  Jacobian option.  \<open>cdf\<close> has no such check: it never raises that error, and it
  returns a value for every argument that passes the check of the dimensions.
\<close>

theorem C1_discrete_marginal_rejected:
  assumes "\<exists>m\<in>set (Marginals self).
             Name m \<in> {''binomial'', ''geometric'', ''negativebinomial'', ''poisson''}"
  shows "X2U lib self X Jacobian = Inl DiscreteMarginal
       \<and> ERANataf_pdf lib self X = Inl DiscreteMarginal
       \<and> ERANataf_cdf lib self X \<noteq> Inl DiscreteMarginal
       \<and> (\<forall>X'. check_dimensions (length (Marginals self)) X = Inr X'
             \<longrightarrow> (\<exists>v. ERANataf_cdf lib self X = Inr v))"
proof -
  from assms have d: "has_discrete (Marginals self)" by (simp add: has_discrete_iff)
  have "X2U lib self X Jacobian = Inl DiscreteMarginal"
    using d by (simp add: X2U_def)
  moreover have "ERANataf_pdf lib self X = Inl DiscreteMarginal"
    using d by (simp add: ERANataf_pdf_def)
  ultimately show ?thesis using cdf_not_discrete_error cdf_returns by blast
qed

theorem C1_discrete_marginal_rejected_witness:
  "X2U example_lib \<lparr>Marginals = [coin], Rho_X = [[1]], Rho_Z = [[1]], A = [[1]]\<rparr>
     (Arr1 [0]) False = Inl DiscreteMarginal
   \<and> ERANataf_pdf example_lib \<lparr>Marginals = [coin], Rho_X = [[1]], Rho_Z = [[1]], A = [[1]]\<rparr>
       (Arr1 [0]) = Inl DiscreteMarginal
   \<and> ERANataf_cdf example_lib \<lparr>Marginals = [coin], Rho_X = [[1]], Rho_Z = [[1]], A = [[1]]\<rparr>
       (Arr1 [0]) = Inr (Arr0 (1 / 2))"
proof -
  have "\<exists>m\<in>set (Marginals \<lparr>Marginals = [coin], Rho_X = [[1]], Rho_Z = [[1]], A = [[1]]\<rparr>).
          Name m \<in> {''binomial'', ''geometric'', ''negativebinomial'', ''poisson''}"
    by (simp add: coin_def)
  from C1_discrete_marginal_rejected [OF this] cdf_coin show ?thesis by simp
qed

section \<open>The fill of the correlation matrix in standard normal space\<close>

subsection \<open>Reading and writing one entry\<close>

lemma get2_Inr: "get2 m i j = Inr v \<longleftrightarrow> i < length m \<and> j < length (m ! i) \<and> v = m ! i ! j"
  by (auto simp: get2_def)

lemma set2_Inr:
  "set2 m i j v = Inr m' \<longleftrightarrow> i < length m \<and> j < length (m ! i) \<and> m' = m[i := (m ! i)[j := v]]"
  by (auto simp: set2_def)

lemma set2_other:
  assumes "set2 m i j v = Inr m'" and "a \<noteq> i \<or> c \<noteq> j"
  shows "m' ! a ! c = m ! a ! c"
proof (cases "a = i")
  case False
  with assms show ?thesis by (simp add: set2_Inr)
next
  case True
  with assms have "c \<noteq> j" by simp
  with assms True show ?thesis by (simp add: set2_Inr)
qed

lemma set2_same: "set2 m i j v = Inr m' \<Longrightarrow> m' ! i ! j = v"
  by (simp add: set2_Inr)

lemma set2_shape:
  "set2 m i j v = Inr m' \<Longrightarrow> length m' = length m \<and> map length m' = map length m"
  by (auto simp: set2_Inr intro!: nth_equalityI simp: nth_list_update)

lemma square_row_length: "square m \<Longrightarrow> i < length m \<Longrightarrow> length (m ! i) = length m"
  by (simp add: square_def is_matrix_def list_all_length)

lemma store_written:
  assumes "store RZ i j v = Inr RZ'" "R ! i ! j \<noteq> 0" "\<not> normal_pair M i j"
  shows "pair_written M R i j RZ RZ'"
  using assms unfolding store_def pair_written_def then_do_def
  by (auto split: sum.splits simp: get2_Inr)

text \<open>
  One round of the loop over \<open>j\<close> that does not raise leaves the variable \<open>i\<close> and the
  count of the random draws as they were: the branch of the searches that follow a
  failed bracketed search is never taken.
\<close>

lemma fill_pair_written:
  assumes run: "fill_pair lib M R (i, RZ, cnt) j = Inr st'"
  shows "\<exists>RZ'. st' = (i, RZ', cnt) \<and> pair_written M R i j RZ RZ'"
proof -
  from run obtain rho where rho: "get2 R i j = Inr rho"
    by (auto simp: fill_pair_def then_do_def split: sum.splits)
  then have rho_eq: "rho = R ! i ! j" by (simp add: get2_Inr)
  show ?thesis
  proof (cases "rho = 0")
    case True
    with run rho rho_eq show ?thesis by (simp add: fill_pair_def pair_written_def)
  next
    case nz: False
    with run rho have inM: "i < length M \<and> j < length M"
      by (auto simp: fill_pair_def split: if_splits)
    show ?thesis
    proof (cases "normal_pair M i j")
      case True
      with run rho nz inM rho_eq show ?thesis
        unfolding fill_pair_def pair_written_def normal_pair_def then_do_def Let_def
        by (auto split: sum.splits simp: get2_Inr)
    next
      case nn: False
      have st: "\<And>v RZ2. store RZ i j v = Inr RZ2 \<Longrightarrow> pair_written M R i j RZ RZ2"
        using store_written nz nn rho_eq by blast
      from nn have nn': "\<not> (Name (M ! i) = ''standardnormal'' \<and> Name (M ! j) = ''standardnormal'')"
        "\<not> (Name (M ! i) = ''normal'' \<and> Name (M ! j) = ''normal'')"
        by (auto simp: normal_pair_def)
      from run rho nz inM nn' rho_eq show ?thesis
        unfolding fill_pair_def Let_def nataf_fun_def
        by (auto simp: then_do_def split: sum.splits if_splits dest!: st)
    qed
  qed
qed

lemma pair_written_other:
  assumes "pair_written M R i j RZ RZ'" and "(p, q) \<noteq> (i, j)" and "(p, q) \<noteq> (j, i)"
  shows "RZ' ! p ! q = RZ ! p ! q"
  using assms unfolding pair_written_def
  by (auto dest!: set2_other [where a = p and c = q])

lemma pair_written_target:
  assumes w: "pair_written M R i j RZ RZ'" and ne: "i \<noteq> j"
  shows "(R ! i ! j = 0 \<longrightarrow> RZ' ! i ! j = RZ ! i ! j \<and> RZ' ! j ! i = RZ ! j ! i)
       \<and> (R ! i ! j \<noteq> 0 \<and> normal_pair M i j \<longrightarrow> RZ' ! i ! j = R ! i ! j \<and> RZ' ! j ! i = R ! j ! i)"
proof (cases "R ! i ! j = 0")
  case True
  with w show ?thesis by (auto simp: pair_written_def)
next
  case False
  with w obtain v w' RZ1 where s1: "set2 RZ i j v = Inr RZ1" and s2: "set2 RZ1 j i w' = Inr RZ'"
    and nv: "normal_pair M i j \<longrightarrow> v = R ! i ! j \<and> w' = R ! j ! i"
    by (auto simp: pair_written_def)
  have "RZ' ! j ! i = w'" using s2 by (rule set2_same)
  moreover have "RZ' ! i ! j = RZ1 ! i ! j" using s2 ne by (auto intro: set2_other)
  moreover have "RZ1 ! i ! j = v" using s1 by (rule set2_same)
  ultimately show ?thesis using False nv by simp
qed

subsection \<open>The two loops\<close>

lemma fill_row_append:
  "fill_row lib M R (js1 @ js2) st = then_do (fill_row lib M R js1 st) (fill_row lib M R js2)"
  by (induction js1 arbitrary: st) (auto simp: then_do_def split: sum.splits)

lemma fill_rows_append:
  "fill_rows lib M R n (is1 @ is2) st = then_do (fill_rows lib M R n is1 st) (fill_rows lib M R n is2)"
  by (induction is1 arbitrary: st) (auto simp: then_do_def split: sum.splits prod.splits)

lemma fill_row_frame:
  assumes "fill_row lib M R js (i, RZ, cnt) = Inr st'"
  shows "\<exists>RZ'. st' = (i, RZ', cnt)
           \<and> (\<forall>p q. \<not> (p = i \<and> q \<in> set js) \<and> \<not> (q = i \<and> p \<in> set js) \<longrightarrow> RZ' ! p ! q = RZ ! p ! q)"
  using assms
proof (induction js arbitrary: RZ)
  case Nil
  then show ?case by auto
next
  case (Cons j js)
  from Cons.prems obtain st1 where p1: "fill_pair lib M R (i, RZ, cnt) j = Inr st1"
    and r1: "fill_row lib M R js st1 = Inr st'"
    by (auto simp: then_do_def split: sum.splits)
  from fill_pair_written [OF p1] obtain RZ1 where st1: "st1 = (i, RZ1, cnt)"
    and w: "pair_written M R i j RZ RZ1" by blast
  from Cons.IH [OF r1 [unfolded st1]] obtain RZ' where st': "st' = (i, RZ', cnt)"
    and fr: "\<forall>p q. \<not> (p = i \<and> q \<in> set js) \<and> \<not> (q = i \<and> p \<in> set js) \<longrightarrow> RZ' ! p ! q = RZ1 ! p ! q"
    by blast
  have "\<forall>p q. \<not> (p = i \<and> q \<in> set (j # js)) \<and> \<not> (q = i \<and> p \<in> set (j # js))
          \<longrightarrow> RZ' ! p ! q = RZ ! p ! q"
  proof (intro allI impI)
    fix p q
    assume a: "\<not> (p = i \<and> q \<in> set (j # js)) \<and> \<not> (q = i \<and> p \<in> set (j # js))"
    then have "RZ' ! p ! q = RZ1 ! p ! q" using fr by simp
    moreover from a have "(p, q) \<noteq> (i, j)" "(p, q) \<noteq> (j, i)" by auto
    then have "RZ1 ! p ! q = RZ ! p ! q" using w by (rule pair_written_other [rotated])
    ultimately show "RZ' ! p ! q = RZ ! p ! q" by simp
  qed
  with st' show ?case by blast
qed

lemma fill_rows_frame:
  assumes "fill_rows lib M R n is (RZ, cnt) = Inr st'"
  shows "\<exists>RZ'. st' = (RZ', cnt)
           \<and> (\<forall>p q. p < q \<and> p \<notin> set is \<longrightarrow> RZ' ! p ! q = RZ ! p ! q \<and> RZ' ! q ! p = RZ ! q ! p)"
  using assms
proof (induction "is" arbitrary: RZ)
  case Nil
  then show ?case by auto
next
  case (Cons i "is")
  from Cons.prems obtain st1 where r1: "fill_row lib M R [i + 1..<n] (i, RZ, cnt) = Inr st1"
    and r2: "(case st1 of (i', RZ', cnt') \<Rightarrow> fill_rows lib M R n is (RZ', cnt')) = Inr st'"
    by (auto simp: then_do_def split: sum.splits)
  from fill_row_frame [OF r1] obtain RZ1 where st1: "st1 = (i, RZ1, cnt)"
    and f1: "\<forall>p q. \<not> (p = i \<and> q \<in> set [i + 1..<n]) \<and> \<not> (q = i \<and> p \<in> set [i + 1..<n])
                \<longrightarrow> RZ1 ! p ! q = RZ ! p ! q" by blast
  from r2 st1 have r2': "fill_rows lib M R n is (RZ1, cnt) = Inr st'" by simp
  from Cons.IH [OF r2'] obtain RZ' where st': "st' = (RZ', cnt)"
    and f2: "\<forall>p q. p < q \<and> p \<notin> set is \<longrightarrow> RZ' ! p ! q = RZ1 ! p ! q \<and> RZ' ! q ! p = RZ1 ! q ! p"
    by blast
  have "\<forall>p q. p < q \<and> p \<notin> set (i # is) \<longrightarrow> RZ' ! p ! q = RZ ! p ! q \<and> RZ' ! q ! p = RZ ! q ! p"
  proof (intro allI impI)
    fix p q
    assume a: "p < q \<and> p \<notin> set (i # is)"
    then have pi: "p \<noteq> i" and pq: "p < q" by auto
    from a f2 have "RZ' ! p ! q = RZ1 ! p ! q \<and> RZ' ! q ! p = RZ1 ! q ! p" by simp
    moreover have "RZ1 ! p ! q = RZ ! p ! q" using f1 pi pq by auto
    moreover have "RZ1 ! q ! p = RZ ! q ! p" using f1 pi pq by auto
    ultimately show "RZ' ! p ! q = RZ ! p ! q \<and> RZ' ! q ! p = RZ ! q ! p" by simp
  qed
  with st' show ?case by blast
qed

lemma upt_split: "a \<le> p \<Longrightarrow> p < n \<Longrightarrow> [a..<n] = [a..<p] @ p # [Suc p..<n]"
proof -
  assume a: "a \<le> p" "p < n"
  then have "[a..<n] = [a..<p] @ [p..<n]"
    using upt_add_eq_append [of a p "n - p"] by simp
  with a show ?thesis by (simp add: upt_conv_Cons)
qed

text \<open>
  What a fill that does not raise leaves in the entries (p, q) and (q, p): the entries
  it started from when the given correlation is zero, and the given correlations when
  the pair is a normal one.
\<close>

lemma fill_rows_entry:
  assumes run: "fill_rows lib M R (length M) [0..<length M] (RZ0, cnt) = Inr st'"
    and pq: "p < q" "q < length M"
  shows "\<exists>RZ. st' = (RZ, cnt)
     \<and> (R ! p ! q = 0 \<longrightarrow> RZ ! p ! q = RZ0 ! p ! q \<and> RZ ! q ! p = RZ0 ! q ! p)
     \<and> (R ! p ! q \<noteq> 0 \<and> normal_pair M p q \<longrightarrow> RZ ! p ! q = R ! p ! q \<and> RZ ! q ! p = R ! q ! p)"
proof -
  let ?n = "length M"
  have pn: "p < ?n" using pq by simp
  have rows: "[0..<?n] = [0..<p] @ p # [Suc p..<?n]"
    using pn by (simp add: upt_split)
  have cols: "[p + 1..<?n] = [Suc p..<q] @ q # [Suc q..<?n]"
    using pq by (simp add: upt_split)
  \<comment> \<open>the rows before p\<close>
  from run obtain sa where ra: "fill_rows lib M R ?n [0..<p] (RZ0, cnt) = Inr sa"
    and rb: "fill_rows lib M R ?n (p # [Suc p..<?n]) sa = Inr st'"
    unfolding rows fill_rows_append by (auto simp: then_do_def split: sum.splits)
  from fill_rows_frame [OF ra] obtain RZa where sa: "sa = (RZa, cnt)"
    and fa: "RZa ! p ! q = RZ0 ! p ! q \<and> RZa ! q ! p = RZ0 ! q ! p"
    using pq by auto
  \<comment> \<open>row p: the columns before q, the pair itself, the columns after q\<close>
  from rb sa obtain sb where rp: "fill_row lib M R [p + 1..<?n] (p, RZa, cnt) = Inr sb"
    and rc: "(case sb of (i', RZ', cnt') \<Rightarrow> fill_rows lib M R ?n [Suc p..<?n] (RZ', cnt')) = Inr st'"
    by (auto simp: then_do_def split: sum.splits)
  from rp obtain s1 s2 where c1: "fill_row lib M R [Suc p..<q] (p, RZa, cnt) = Inr s1"
    and c2: "fill_pair lib M R s1 q = Inr s2"
    and c3: "fill_row lib M R [Suc q..<?n] s2 = Inr sb"
    unfolding cols fill_row_append by (auto simp: then_do_def split: sum.splits)
  from fill_row_frame [OF c1] obtain RZ1 where s1: "s1 = (p, RZ1, cnt)"
    and f1: "RZ1 ! p ! q = RZa ! p ! q \<and> RZ1 ! q ! p = RZa ! q ! p"
    using pq by auto
  from fill_pair_written [OF c2 [unfolded s1]] obtain RZ2 where s2: "s2 = (p, RZ2, cnt)"
    and w: "pair_written M R p q RZ1 RZ2" by blast
  from fill_row_frame [OF c3 [unfolded s2]] obtain RZb where sb: "sb = (p, RZb, cnt)"
    and f3: "RZb ! p ! q = RZ2 ! p ! q \<and> RZb ! q ! p = RZ2 ! q ! p"
    using pq by auto
  \<comment> \<open>the rows after p\<close>
  from rc sb have rd: "fill_rows lib M R ?n [Suc p..<?n] (RZb, cnt) = Inr st'" by simp
  from fill_rows_frame [OF rd] obtain RZ where st': "st' = (RZ, cnt)"
    and f4: "RZ ! p ! q = RZb ! p ! q \<and> RZ ! q ! p = RZb ! q ! p"
    using pq by auto
  from pair_written_target [OF w] pq fa f1 f3 f4 st' show ?thesis by auto
qed

lemma identity_nth:
  "p < n \<Longrightarrow> q < n \<Longrightarrow> identity n ! p ! q = (if p = q then 1 else 0)"
  by (simp add: identity_def)

subsection \<open>The constructor around the fill\<close>

lemma init_checked:
  assumes ok: "ERANataf_init lib M R = Inr self"
  shows "check_correlation lib M R = Inr ()" "symmetric R" "square R"
proof -
  from ok show c: "check_correlation lib M R = Inr ()"
    by (cases "check_correlation lib M R") (auto simp: ERANataf_init_def)
  from c show "symmetric R"
    by (auto simp: check_correlation_cases split: if_splits)
  from c have "np_cholesky lib R \<noteq> None"
    by (auto simp: check_correlation_cases split: if_splits)
  then show "square R"
    by (auto simp: np_cholesky_def split: if_splits)
qed

lemma init_Inr_fill:
  assumes ok: "ERANataf_init lib M R = Inr self"
    and len: "length R = length M"
    and far: "norm_tolerance < linalg_norm lib (map2 (map2 (-)) R (identity (length M)))"
  shows "\<exists>cnt. fill_rows lib M R (length M) [0..<length M] (identity (length M), 0)
                 = Inr (Rho_Z self, cnt)"
proof -
  have b: "broadcast_sub R (identity (length M)) = Inr (map2 (map2 (-)) R (identity (length M)))"
    using len by (rule broadcast_same_size)
  have c: "check_correlation lib M R = Inr ()" using ok by (rule init_checked)
  from ok far show ?thesis
    unfolding ERANataf_init_def Let_def c b then_do_Inr
    by (auto simp: then_do_def split: sum.splits option.splits)
qed

lemma init_Inr_near:
  assumes ok: "ERANataf_init lib M R = Inr self"
    and len: "length R = length M"
    and near: "\<not> norm_tolerance < linalg_norm lib (map2 (map2 (-)) R (identity (length M)))"
  shows "Rho_Z self = identity (length M)"
proof -
  have b: "broadcast_sub R (identity (length M)) = Inr (map2 (map2 (-)) R (identity (length M)))"
    using len by (rule broadcast_same_size)
  have c: "check_correlation lib M R = Inr ()" using ok by (rule init_checked)
  from ok near show ?thesis
    unfolding ERANataf_init_def Let_def c b then_do_Inr
    by (auto simp: then_do_def split: sum.splits option.splits)
qed


subsection \<open>Evaluating the constructor on examples\<close>

lemma brent_lib_sel [simp]:
  "linalg_norm brent_lib = frobenius"
  "cholesky brent_lib = (\<lambda>m. chol_rows m [])"
  "brentq brent_lib = (\<lambda>f lo hi. Inr (1 / 4))"
  by (simp_all add: brent_lib_def example_lib_def)

lemma name_uniform01 [simp]: "Name uniform01 = ''uniform''"
  by (simp add: uniform01_def)

lemma example_normal_sel [simp]:
  "Name example_normal = ''normal''"
  "isfinite (mean example_normal)" "isfinite (std example_normal)"
  by (simp_all add: example_normal_def isfinite_def)

lemma identity_3: "identity 3 = [[1, 0, 0], [0, 1, 0], [0, 0, 1]]"
  "identity (Suc (Suc (Suc 0))) = [[1, 0, 0], [0, 1, 0], [0, 0, 1]]"
  by (simp_all add: identity_def numeral_3_eq_3)

text \<open>The Frobenius norm of an array exceeds whatever one of its entries exceeds in absolute value.\<close>

lemma norm_entry:
  assumes "p < length D" "q < length (D ! p)" "c < \<bar>D ! p ! q\<bar>"
  shows "c < frobenius D"
proof -
  have "D ! p \<in> set D" "D ! p ! q \<in> set (D ! p)" using assms(1,2) by simp_all
  then have mem: "D ! p ! q \<in> set (concat D)" by auto
  have "\<bar>D ! p ! q\<bar> ^ 2 \<le> sum_list (map (\<lambda>x. \<bar>x\<bar> ^ 2) (concat D))"
    using mem by (intro member_le_sum_list) auto
  then have "sqrt (\<bar>D ! p ! q\<bar> ^ 2) \<le> frobenius D"
    unfolding frobenius_def by (rule real_sqrt_le_mono)
  then have "\<bar>D ! p ! q\<bar> \<le> frobenius D" by simp
  with assms(3) show ?thesis by linarith
qed

lemma far_example:
  "norm_tolerance < frobenius (map2 (map2 (-)) [[1, 3 / 10], [3 / 10, 1]] (identity 2))"
  by (rule norm_entry [where p = 0 and q = 1]) (simp_all add: identity_2 norm_tolerance_def)

lemma broadcast_example:
  "broadcast_sub [[1, 3 / 10], [3 / 10, 1]] (identity 2)
     = Inr (map2 (map2 (-)) [[1, 3 / 10], [3 / 10, 1]] (identity 2))"
  by (simp add: broadcast_sub_def identity_2)

lemma init_normal_2:
  "ERANataf_init example_lib [example_normal, example_normal] [[1, 3 / 10], [3 / 10, 1]] =
     Inr \<lparr>Marginals = [example_normal, example_normal], Rho_X = [[1, 3 / 10], [3 / 10, 1]],
          Rho_Z = [[1, 3 / 10], [3 / 10, 1]], A = [[1, 0], [3 / 10, sqrt (91 / 100)]]\<rparr>"
proof -
  have c: "check_correlation example_lib [example_normal, example_normal]
             [[1, 3 / 10], [3 / 10, 1]] = Inr ()"
    by (simp add: check_correlation_def finite_moments_def
      np_cholesky_def square_def is_matrix_def symmetric_def unit_diagonal_def)
  have l: "length [example_normal, example_normal] = 2" by simp
  have f: "fill_rows example_lib [example_normal, example_normal] [[1, 3 / 10], [3 / 10, 1]]
             2 [0..<2] (identity 2, 0) = Inr ([[1, 3 / 10], [3 / 10, 1]], 0)"
    by (simp add: numeral_2_eq_2 identity_2 fill_pair_def get2_def set2_def)
  have ch: "np_cholesky example_lib [[1, 3 / 10], [3 / 10, 1]]
              = Some [[1, 0], [3 / 10, sqrt (91 / 100)]]"
    by (simp add: np_cholesky_def square_def is_matrix_def)
  show ?thesis
    unfolding ERANataf_init_def Let_def l c broadcast_example then_do_Inr example_lib_sel
    using far_example by (simp add: f ch)
qed

lemma init_normal_near:
  "ERANataf_init example_lib [example_normal, example_normal]
       [[1, 1 / 1000000], [1 / 1000000, 1]] =
     Inr \<lparr>Marginals = [example_normal, example_normal],
          Rho_X = [[1, 1 / 1000000], [1 / 1000000, 1]],
          Rho_Z = [[1, 0], [0, 1]], A = [[1, 0], [0, 1]]\<rparr>"
proof -
  have c: "check_correlation example_lib [example_normal, example_normal]
             [[1, 1 / 1000000], [1 / 1000000, 1]] = Inr ()"
    by (simp add: check_correlation_def finite_moments_def
      np_cholesky_def square_def is_matrix_def symmetric_def unit_diagonal_def)
  have b: "broadcast_sub [[1, 1 / 1000000], [1 / 1000000, 1]] (identity 2)
             = Inr (map2 (map2 (-)) [[1, 1 / 1000000], [1 / 1000000, 1]] (identity 2))"
    by (simp add: broadcast_sub_def identity_2)
  have l: "length [example_normal, example_normal] = 2" by simp
  show ?thesis
    unfolding ERANataf_init_def Let_def l c b then_do_Inr
    using near_example by (simp add: identity_2 chol_identity_2)
qed

lemma init_three_uniform:
  "ERANataf_init brent_lib [uniform01, uniform01, uniform01]
       [[1, 0, 3 / 10], [0, 1, 0], [3 / 10, 0, 1]] =
     Inr \<lparr>Marginals = [uniform01, uniform01, uniform01],
          Rho_X = [[1, 0, 3 / 10], [0, 1, 0], [3 / 10, 0, 1]],
          Rho_Z = [[1, 0, 1 / 4], [0, 1, 0], [1 / 4, 0, 1]],
          A = [[1, 0, 0], [0, 1, 0], [1 / 4, 0, sqrt (15 / 16)]]\<rparr>"
proof -
  let ?R = "[[1, 0, 3 / 10], [0, 1, 0], [3 / 10, 0, 1 :: real]]"
  have n: "norm_tolerance < frobenius (map2 (map2 (-)) ?R (identity 3))"
    by (rule norm_entry [where p = 0 and q = 2]) (simp_all add: identity_3 norm_tolerance_def)
  have b: "broadcast_sub ?R (identity 3) = Inr (map2 (map2 (-)) ?R (identity 3))"
    by (simp add: broadcast_sub_def identity_3)
  have c: "check_correlation brent_lib [uniform01, uniform01, uniform01] ?R = Inr ()"
    by (simp add: check_correlation_def finite_moments_def np_cholesky_def square_def
        is_matrix_def symmetric_def unit_diagonal_def numeral_3_eq_3 Let_def)
  have l: "length [uniform01, uniform01, uniform01] = 3" by simp
  have f: "fill_rows brent_lib [uniform01, uniform01, uniform01] ?R 3 [0..<3] (identity 3, 0)
             = Inr ([[1, 0, 1 / 4], [0, 1, 0], [1 / 4, 0, 1]], 0)"
    by (simp add: numeral_3_eq_3 identity_3 fill_pair_def get2_def set2_def store_def
        nataf_fun_def Let_def)
  have ch: "np_cholesky brent_lib [[1, 0, 1 / 4], [0, 1, 0], [1 / 4, 0, 1]]
              = Some [[1, 0, 0], [0, 1, 0], [1 / 4, 0, sqrt (15 / 16)]]"
    by (simp add: np_cholesky_def square_def is_matrix_def Let_def)
  show ?thesis
    unfolding ERANataf_init_def Let_def l c b then_do_Inr brent_lib_sel
    using n by (simp add: f ch)
qed


subsection \<open>A pair of normal marginals\<close>

text \<open>
  C3 as the specification states it fails: for two marginals named \<open>normal\<close> and a
  correlation of 1e-6, the matrix is within 1e-5 of the identity, the fill is
  skipped, and the derived correlation is 0.
\<close>

theorem C3_normal_pair_counterexample:
  "ERANataf_init example_lib [example_normal, example_normal]
       [[1, 1 / 1000000], [1 / 1000000, 1]] =
     Inr \<lparr>Marginals = [example_normal, example_normal],
          Rho_X = [[1, 1 / 1000000], [1 / 1000000, 1]],
          Rho_Z = [[1, 0], [0, 1]], A = [[1, 0], [0, 1]]\<rparr>"
  by (rule init_normal_near)

text \<open>
  The test of the normal pairs asks for two equal names.  A pair of one marginal named
  \<open>normal\<close> and one named \<open>standardnormal\<close> with a correlation other than zero goes to
  the bracketed search, and the root that the search returns is stored.
\<close>

lemma mixed_pair_is_searched:
  assumes "get2 R i j = Inr rho" "rho \<noteq> 0" "i < length M" "j < length M"
    and "(Name (M ! i) = ''normal'' \<and> Name (M ! j) = ''standardnormal'')
         \<or> (Name (M ! i) = ''standardnormal'' \<and> Name (M ! j) = ''normal'')"
  shows "fill_pair lib M R (i, RZ, cnt) j =
           then_do (brentq lib (nataf_residual lib (nataf_coef lib (M ! i) (M ! j)) rho)
                      (- 1 + 1 / 2 ^ 52) (1 - 1 / 2 ^ 52))
             (\<lambda>x0. then_do (store RZ i j x0) (\<lambda>RZ2. Inr (i, RZ2, cnt)))"
  using assms by (auto simp: fill_pair_def nataf_fun_def Let_def)

text \<open>
  C3, amended.  Let the constructor return an object for a correlation matrix of the
  size of the list of marginals whose difference from the identity has a Frobenius
  norm, as \<open>np.linalg.norm\<close> returns it, above the double 1e-05.  Then for every pair
  p < q of marginals that are both named \<open>normal\<close> or both named \<open>standardnormal\<close>,
  the entries (p, q) and (q, p) of the correlation matrix in standard normal space are
  the entries (p, q) and (q, p) of the given matrix.
\<close>

theorem C3_normal_pair_keeps_correlation:
  assumes ok: "ERANataf_init lib M R = Inr self"
    and len: "length R = length M"
    and far: "norm_tolerance < linalg_norm lib (map2 (map2 (-)) R (identity (length M)))"
    and pq: "p < q" "q < length M"
    and normal: "(Name (M ! p) = ''standardnormal'' \<and> Name (M ! q) = ''standardnormal'')
                 \<or> (Name (M ! p) = ''normal'' \<and> Name (M ! q) = ''normal'')"
  shows "Rho_Z self ! p ! q = R ! p ! q \<and> Rho_Z self ! q ! p = R ! q ! p"
proof -
  from init_Inr_fill [OF ok len far] obtain cnt
    where run: "fill_rows lib M R (length M) [0..<length M] (identity (length M), 0)
                  = Inr (Rho_Z self, cnt)" by blast
  have sym: "symmetric R" using ok by (rule init_checked)
  have np: "normal_pair M p q" using normal by (simp add: normal_pair_def)
  from fill_rows_entry [OF run pq]
  have z: "R ! p ! q = 0 \<longrightarrow> Rho_Z self ! p ! q = identity (length M) ! p ! q
                          \<and> Rho_Z self ! q ! p = identity (length M) ! q ! p"
    and nz: "R ! p ! q \<noteq> 0 \<and> normal_pair M p q
               \<longrightarrow> Rho_Z self ! p ! q = R ! p ! q \<and> Rho_Z self ! q ! p = R ! q ! p"
    by auto
  show ?thesis
  proof (cases "R ! p ! q = 0")
    case True
    have "R ! q ! p = R ! p ! q" using sym pq len by (simp add: symmetric_iff)
    with True z pq show ?thesis by (simp add: identity_nth)
  next
    case False
    with nz np show ?thesis by simp
  qed
qed

theorem C3_normal_pair_keeps_correlation_witness:
  "ERANataf_init example_lib [example_normal, example_normal] [[1, 3 / 10], [3 / 10, 1]] =
     Inr \<lparr>Marginals = [example_normal, example_normal], Rho_X = [[1, 3 / 10], [3 / 10, 1]],
          Rho_Z = [[1, 3 / 10], [3 / 10, 1]], A = [[1, 0], [3 / 10, sqrt (91 / 100)]]\<rparr>
   \<and> Rho_Z \<lparr>Marginals = [example_normal, example_normal], Rho_X = [[1, 3 / 10], [3 / 10, 1]],
            Rho_Z = [[1, 3 / 10], [3 / 10, 1]], A = [[1, 0], [3 / 10, sqrt (91 / 100)]]\<rparr> ! 0 ! 1
       = [[1, 3 / 10], [3 / 10, 1]] ! 0 ! 1"
proof -
  have far: "norm_tolerance < linalg_norm example_lib (map2 (map2 (-)) [[1, 3 / 10], [3 / 10, 1]]
               (identity (length [example_normal, example_normal])))"
    unfolding example_lib_sel
    by (rule norm_entry [where p = 0 and q = 1]) (simp_all add: identity_2 norm_tolerance_def)
  have "Rho_Z \<lparr>Marginals = [example_normal, example_normal], Rho_X = [[1, 3 / 10], [3 / 10, 1]],
          Rho_Z = [[1, 3 / 10], [3 / 10, 1]], A = [[1, 0], [3 / 10, sqrt (91 / 100)]]\<rparr> ! 0 ! 1
     = [[1, 3 / 10], [3 / 10, 1]] ! 0 ! 1"
    using C3_normal_pair_keeps_correlation [OF init_normal_2 _ far, of 0 1]
    by simp
  with init_normal_2 show ?thesis by simp
qed


subsection \<open>A pair with correlation zero\<close>

text \<open>
  C10.  Let the constructor return an object for a correlation matrix of the size of
  the list of marginals, and let the given correlation of two different marginals i
  and j be zero.  Then the entry (i, j) of the correlation matrix in standard normal
  space is zero.  The fill visits the pair with the smaller index first, and for that
  pair the body of the loop returns the state it was given, whatever the array and
  whatever the library: no search is run for the pair.
\<close>

theorem C10_zero_correlation_gives_zero:
  assumes ok: "ERANataf_init lib M R = Inr self"
    and len: "length R = length M"
    and ij: "i < length M" "j < length M" "i \<noteq> j"
    and zero: "R ! i ! j = 0"
  shows "Rho_Z self ! i ! j = 0
       \<and> (\<forall>lib' RZ cnt. fill_pair lib' M R (min i j, RZ, cnt) (max i j) = Inr (min i j, RZ, cnt))"
proof -
  have sym: "symmetric R" and sq: "square R" using ok by (rule init_checked)+
  define p where "p = min i j"
  define q where "q = max i j"
  have pq: "p < q" "q < length M" using ij by (auto simp: p_def q_def)
  have "R ! j ! i = R ! i ! j" using sym ij len by (simp add: symmetric_iff)
  with zero have zpq: "R ! p ! q = 0" by (auto simp: p_def q_def min_def max_def)
  have "p < length R" "q < length (R ! p)"
    using pq len square_row_length [OF sq, of p] by simp_all
  with zpq have rd: "get2 R p q = Inr 0" by (simp add: get2_def)
  have skip: "\<forall>lib' RZ cnt. fill_pair lib' M R (p, RZ, cnt) q = Inr (p, RZ, cnt)"
    by (simp add: fill_pair_def rd)
  have ent: "Rho_Z self ! p ! q = 0 \<and> Rho_Z self ! q ! p = 0"
  proof (cases "norm_tolerance < linalg_norm lib (map2 (map2 (-)) R (identity (length M)))")
    case True
    from init_Inr_fill [OF ok len True] obtain cnt
      where run: "fill_rows lib M R (length M) [0..<length M] (identity (length M), 0)
                    = Inr (Rho_Z self, cnt)" by blast
    from fill_rows_entry [OF run pq] zpq pq show ?thesis by (auto simp: identity_nth)
  next
    case False
    from init_Inr_near [OF ok len False] pq show ?thesis by (simp add: identity_nth)
  qed
  have "Rho_Z self ! i ! j = 0"
    using ent ij(3) by (cases "i < j") (auto simp: p_def q_def min_def max_def)
  with skip show ?thesis unfolding p_def q_def by simp
qed

theorem C10_zero_correlation_gives_zero_witness:
  "ERANataf_init brent_lib [uniform01, uniform01, uniform01]
       [[1, 0, 3 / 10], [0, 1, 0], [3 / 10, 0, 1]] =
     Inr \<lparr>Marginals = [uniform01, uniform01, uniform01],
          Rho_X = [[1, 0, 3 / 10], [0, 1, 0], [3 / 10, 0, 1]],
          Rho_Z = [[1, 0, 1 / 4], [0, 1, 0], [1 / 4, 0, 1]],
          A = [[1, 0, 0], [0, 1, 0], [1 / 4, 0, sqrt (15 / 16)]]\<rparr>
   \<and> [[1, 0, 3 / 10], [0, 1, 0], [3 / 10, 0, 1 :: real]] ! 2 ! 1 = 0
   \<and> Rho_Z \<lparr>Marginals = [uniform01, uniform01, uniform01],
          Rho_X = [[1, 0, 3 / 10], [0, 1, 0], [3 / 10, 0, 1]],
          Rho_Z = [[1, 0, 1 / 4], [0, 1, 0], [1 / 4, 0, 1]],
          A = [[1, 0, 0], [0, 1, 0], [1 / 4, 0, sqrt (15 / 16)]]\<rparr> ! 2 ! 1 = 0"
proof -
  have "Rho_Z \<lparr>Marginals = [uniform01, uniform01, uniform01],
          Rho_X = [[1, 0, 3 / 10], [0, 1, 0], [3 / 10, 0, 1]],
          Rho_Z = [[1, 0, 1 / 4], [0, 1, 0], [1 / 4, 0, 1]],
          A = [[1, 0, 0], [0, 1, 0], [1 / 4, 0, sqrt (15 / 16)]]\<rparr> ! 2 ! 1 = 0"
    using C10_zero_correlation_gives_zero [OF init_three_uniform, of 2 1]
    by simp
  with init_three_uniform show ?thesis by simp
qed


subsection \<open>A bracketed search that fails\<close>

text \<open>
  The searches that the source places after a failed bracketed search never run: the
  body of the loop over \<open>j\<close>, the two loops and the constructor give the same result
  whatever \<open>fsolve\<close> and the random generator return.
\<close>

lemma nataf_coef_update [simp]:
  "nataf_coef (lib\<lparr>fsolve := fs, rand := rd\<rparr>) = nataf_coef lib"
  by (intro ext) (simp add: nataf_coef_def quadrature_def)

lemma nataf_residual_update [simp]:
  "nataf_residual (lib\<lparr>fsolve := fs, rand := rd\<rparr>) = nataf_residual lib"
  by (intro ext) (simp add: nataf_residual_def quadrature_def)

lemma nataf_fun_update [simp]:
  "nataf_fun (lib\<lparr>fsolve := fs, rand := rd\<rparr>) = nataf_fun lib"
  by (intro ext) (simp add: nataf_fun_def)

lemma fill_pair_ignores_fsolve:
  "fill_pair (lib\<lparr>fsolve := fs, rand := rd\<rparr>) M R st j = fill_pair lib M R st j"
  by (cases st) (simp add: fill_pair_def Let_def cong: if_cong)

lemma fill_row_ignores_fsolve:
  "fill_row (lib\<lparr>fsolve := fs, rand := rd\<rparr>) M R js = fill_row lib M R js"
proof (induction js)
  case Nil
  show ?case by (intro ext) simp
next
  case (Cons j js)
  show ?case by (intro ext) (simp add: Cons.IH fill_pair_ignores_fsolve)
qed

lemma fill_rows_ignores_fsolve:
  "fill_rows (lib\<lparr>fsolve := fs, rand := rd\<rparr>) M R n is = fill_rows lib M R n is"
proof (induction "is")
  case Nil
  show ?case by (intro ext) simp
next
  case (Cons i "is")
  show ?case by (intro ext) (simp add: Cons.IH fill_row_ignores_fsolve split: prod.splits)
qed

lemma np_cholesky_update:
  "np_cholesky (lib\<lparr>fsolve := fs, rand := rd\<rparr>) = np_cholesky lib"
  by (intro ext) (simp add: np_cholesky_def)

lemma check_correlation_update:
  "check_correlation (lib\<lparr>fsolve := fs, rand := rd\<rparr>) = check_correlation lib"
  by (intro ext) (simp add: check_correlation_def np_cholesky_update)

lemma constructor_ignores_fsolve:
  "ERANataf_init (lib\<lparr>fsolve := fs, rand := rd\<rparr>) M R = ERANataf_init lib M R"
  by (simp add: ERANataf_init_def np_cholesky_update check_correlation_update
      fill_rows_ignores_fsolve cong: if_cong)

text \<open>
  C2 on a pair whose bracketed search fails.  Two marginals without a closed form and
  a correlation r other than zero pass the checks and reach the fill.  When \<open>brentq\<close>
  raises an exception for the pair, as it does for a search that fails to converge,
  the constructor ends with that exception: no call of \<open>fsolve\<close> is made, nothing is
  stored and no object is built, whatever \<open>fsolve\<close> and the random generator would
  have returned.
\<close>

theorem C2_failed_search_ends_construction:
  assumes chk: "check_correlation lib [m0, m1] [[1, r], [r, 1]] = Inr ()"
    and far: "norm_tolerance < linalg_norm lib [[0, r], [r, 0]]"
    and r: "r \<noteq> 0"
    and open_form: "\<not> closed_form m0 m1"
    and fail: "brentq lib (nataf_residual lib (nataf_coef lib m0 m1) r)
                 (- 1 + 1 / 2 ^ 52) (1 - 1 / 2 ^ 52) = Inl e"
  shows "ERANataf_init (lib\<lparr>fsolve := fs, rand := rd\<rparr>) [m0, m1] [[1, r], [r, 1]] = Inl e"
proof -
  have l: "length [m0, m1] = 2" by simp
  have b: "broadcast_sub [[1, r], [r, 1]] (identity 2) = Inr [[0, r], [r, 0]]"
    by (simp add: broadcast_sub_def identity_2)
  have p: "fill_pair lib [m0, m1] [[1, r], [r, 1]] (0, identity 2, 0) (Suc 0) = Inl e"
    using r open_form fail
    by (auto simp: fill_pair_def get2_def closed_form_def nataf_fun_def Let_def)
  have f: "fill_rows lib [m0, m1] [[1, r], [r, 1]] 2 [0..<2] (identity 2, 0) = Inl e"
    by (simp add: numeral_2_eq_2 p [unfolded numeral_2_eq_2])
  have "ERANataf_init lib [m0, m1] [[1, r], [r, 1]] = Inl e"
    unfolding ERANataf_init_def Let_def l chk b then_do_Inr
    using far by (simp add: f)
  then show ?thesis by (simp only: constructor_ignores_fsolve)
qed

theorem C2_failed_search_ends_construction_witness:
  "ERANataf_init (example_lib\<lparr>fsolve := \<lambda>f x0. (x0, True), rand := \<lambda>k. 1 / 4\<rparr>)
     [uniform01, uniform01] [[1, 3 / 10], [3 / 10, 1]] = Inl RootNotConverged"
proof -
  have chk: "check_correlation example_lib [uniform01, uniform01] [[1, 3 / 10], [3 / 10, 1]]
               = Inr ()"
    by (simp add: check_correlation_def finite_moments_def
      np_cholesky_def square_def is_matrix_def symmetric_def unit_diagonal_def)
  have far: "norm_tolerance < linalg_norm example_lib [[0, 3 / 10], [3 / 10, 0]]"
    unfolding example_lib_sel
    by (rule norm_entry [where p = 0 and q = 1]) (simp_all add: norm_tolerance_def)
  have open_form: "\<not> closed_form uniform01 uniform01"
    by (simp add: closed_form_def)
  have fail: "brentq example_lib
                 (nataf_residual example_lib (nataf_coef example_lib uniform01 uniform01) (3 / 10))
                 (- 1 + 1 / 2 ^ 52) (1 - 1 / 2 ^ 52) = Inl RootNotConverged"
    by simp
  show ?thesis
    using C2_failed_search_ends_construction [OF chk far _ open_form fail] by simp
qed


section \<open>The transformations between the two spaces\<close>

subsection \<open>Arrays and their transposes\<close>

lemma is_matrix_iff:
  "is_matrix r c m \<longleftrightarrow> length m = r \<and> (\<forall>i<r. length (m ! i) = c)"
  by (auto simp: is_matrix_def list_all_length)

lemma ncols_matrix: "is_matrix r c m \<Longrightarrow> 0 < r \<Longrightarrow> ncols m = c"
  by (cases m) (auto simp: is_matrix_def ncols_def)

lemma col_length [simp]: "length (col m j) = length m"
  by (simp add: col_def)

lemma mat_T_matrix:
  assumes "is_matrix r c m" "0 < r"
  shows "is_matrix c r (mat_T m)"
  using assms by (simp add: is_matrix_iff mat_T_def ncols_matrix [OF assms])

lemma mat_T_nth:
  assumes "is_matrix r c m" "0 < r" "j < c" "i < r"
  shows "mat_T m ! j ! i = m ! i ! j"
  using assms by (simp add: mat_T_def ncols_matrix [OF assms(1,2)] col_def is_matrix_iff)

lemma matrix_eqI:
  assumes "is_matrix r c m" "is_matrix r c m'" "\<And>i j. i < r \<Longrightarrow> j < c \<Longrightarrow> m ! i ! j = m' ! i ! j"
  shows "m = m'"
proof (rule nth_equalityI)
  show "length m = length m'" using assms(1,2) by (simp add: is_matrix_iff)
next
  fix i assume "i < length m"
  then have i: "i < r" using assms(1) by (simp add: is_matrix_iff)
  show "m ! i = m' ! i"
  proof (rule nth_equalityI)
    show "length (m ! i) = length (m' ! i)" using assms(1,2) i by (simp add: is_matrix_iff)
  next
    fix j assume "j < length (m ! i)"
    then have "j < c" using assms(1) i by (simp add: is_matrix_iff)
    with i show "m ! i ! j = m' ! i ! j" by (rule assms(3))
  qed
qed

lemma mat_T_involution:
  assumes m: "is_matrix r c m" and r: "0 < r" and c: "0 < c"
  shows "mat_T (mat_T m) = m"
proof (rule matrix_eqI [OF _ m])
  have t: "is_matrix c r (mat_T m)" using m r by (rule mat_T_matrix)
  then show "is_matrix r c (mat_T (mat_T m))" using c by (rule mat_T_matrix)
  fix i j assume ij: "i < r" "j < c"
  have "mat_T (mat_T m) ! i ! j = mat_T m ! j ! i" using t c ij by (rule mat_T_nth)
  also have "\<dots> = m ! i ! j" using m r ij(2,1) by (rule mat_T_nth)
  finally show "mat_T (mat_T m) ! i ! j = m ! i ! j" .
qed

lemma check_dimensions_Arr2:
  assumes "is_matrix n d X" "0 < n"
  shows "check_dimensions d (Arr2 X) = Inr X"
  using ncols_matrix [OF assms] by (simp add: check_dimensions_def)

subsection \<open>The loops over the marginals\<close>

lemma fold_set_rows:
  assumes "length Z0 = d" "k \<le> d"
  shows "fold (\<lambda>i Z. Z[i := f i]) [0..<k] Z0 = map (\<lambda>i. if i < k then f i else Z0 ! i) [0..<d]"
  using assms(2)
proof (induction k)
  case 0
  show ?case using assms(1) by (auto intro: nth_equalityI)
next
  case (Suc k)
  then have k: "k < d" and IH: "fold (\<lambda>i Z. Z[i := f i]) [0..<k] Z0
      = map (\<lambda>i. if i < k then f i else Z0 ! i) [0..<d]" by simp_all
  show ?case
    by (simp add: IH) (rule nth_equalityI, auto simp: nth_list_update k)
qed

lemma X_to_Z_eq:
  assumes "is_matrix n (length M) X" "0 < n"
  shows "X_to_Z lib M X = map (\<lambda>i. map (\<lambda>x. norm_ppf lib (cdf (M ! i) x)) (col X i)) [0..<length M]"
proof -
  have c: "ncols X = length M" using assms by (rule ncols_matrix)
  show ?thesis
    unfolding X_to_Z_def c
    by (subst fold_set_rows [where d = "length M"]) (simp_all add: zeros_def)
qed

lemma set_col_map:
  assumes "length v = n"
  shows "set_col (map g [0..<n]) k v = map (\<lambda>r. (g r)[k := v ! r]) [0..<n]"
  using assms by (auto simp: set_col_def intro!: nth_equalityI)

lemma fold_set_cols:
  assumes len: "\<And>i. i < d \<Longrightarrow> length (v i) = n" and "k \<le> d"
  shows "fold (\<lambda>i X. set_col X i (v i)) [0..<k] (zeros n d)
           = map (\<lambda>r. map (\<lambda>i. if i < k then v i ! r else 0) [0..<d]) [0..<n]"
  using assms(2)
proof (induction k)
  case 0
  show ?case by (auto simp: zeros_def intro!: nth_equalityI)
next
  case (Suc k)
  then have k: "k < d" and IH: "fold (\<lambda>i X. set_col X i (v i)) [0..<k] (zeros n d)
           = map (\<lambda>r. map (\<lambda>i. if i < k then v i ! r else 0) [0..<d]) [0..<n]" by simp_all
  have "set_col (map (\<lambda>r. map (\<lambda>i. if i < k then v i ! r else 0) [0..<d]) [0..<n]) k (v k)
          = map (\<lambda>r. (map (\<lambda>i. if i < k then v i ! r else 0) [0..<d])[k := v k ! r]) [0..<n]"
    by (rule set_col_map) (simp add: len k)
  also have "\<dots> = map (\<lambda>r. map (\<lambda>i. if i < Suc k then v i ! r else 0) [0..<d]) [0..<n]"
    by (auto intro!: nth_equalityI simp: nth_list_update k)
  finally show ?case by (simp add: IH)
qed

lemma Z_to_X_eq:
  assumes Z: "is_matrix (length M) n Z"
  shows "Z_to_X lib M Z n
           = Inr (map (\<lambda>r. map (\<lambda>i. icdf (M ! i) (norm_cdf lib (Z ! i ! r))) [0..<length M]) [0..<n])"
proof -
  have l: "length Z = length M" using Z by (simp add: is_matrix_iff)
  have "fold (\<lambda>i X. set_col X i (map (\<lambda>z. icdf (M ! i) (norm_cdf lib z)) (Z ! i)))
          [0..<length M] (zeros n (length M))
        = map (\<lambda>r. map (\<lambda>i. if i < length M
                                then map (\<lambda>z. icdf (M ! i) (norm_cdf lib z)) (Z ! i) ! r else 0)
                         [0..<length M]) [0..<n]"
    by (rule fold_set_cols) (use Z in \<open>simp_all add: is_matrix_iff\<close>)
  also have "\<dots> = map (\<lambda>r. map (\<lambda>i. icdf (M ! i) (norm_cdf lib (Z ! i ! r))) [0..<length M]) [0..<n]"
    using Z by (auto simp: is_matrix_iff)
  finally show ?thesis by (simp add: Z_to_X_def l)
qed

lemma X_to_Z_matrix:
  assumes "is_matrix n (length M) X" "0 < n"
  shows "is_matrix (length M) n (X_to_Z lib M X)"
  using assms by (simp add: X_to_Z_eq [OF assms] is_matrix_iff)

lemma X_to_Z_nth:
  assumes "is_matrix n (length M) X" "0 < n" "i < length M" "r < n"
  shows "X_to_Z lib M X ! i ! r = norm_ppf lib (cdf (M ! i) (X ! r ! i))"
  using assms by (simp add: X_to_Z_eq [OF assms(1,2)] is_matrix_iff col_def)

text \<open>The points come back from \<open>Z\<close> when every coordinate can be inverted.\<close>

lemma Z_to_X_inverts:
  assumes X: "is_matrix n (length M) X" and n: "0 < n"
    and norm: "\<forall>p. 0 < p \<and> p < 1 \<longrightarrow> norm_cdf lib (norm_ppf lib p) = p"
    and inv: "\<forall>r<n. \<forall>i<length M. 0 < cdf (M ! i) (X ! r ! i) \<and> cdf (M ! i) (X ! r ! i) < 1
                \<and> icdf (M ! i) (cdf (M ! i) (X ! r ! i)) = X ! r ! i"
  shows "Z_to_X lib M (X_to_Z lib M X) n = Inr X"
proof -
  let ?Z = "X_to_Z lib M X"
  let ?X' = "map (\<lambda>r. map (\<lambda>i. icdf (M ! i) (norm_cdf lib (?Z ! i ! r))) [0..<length M]) [0..<n]"
  have Z: "is_matrix (length M) n ?Z" using X n by (rule X_to_Z_matrix)
  have "?X' = X"
  proof (rule matrix_eqI [OF _ X])
    show "is_matrix n (length M) ?X'" by (simp add: is_matrix_iff)
    fix r i assume ri: "r < n" "i < length M"
    have "?X' ! r ! i = icdf (M ! i) (norm_cdf lib (?Z ! i ! r))" using ri by simp
    also have "?Z ! i ! r = norm_ppf lib (cdf (M ! i) (X ! r ! i))"
      using X n ri(2,1) by (rule X_to_Z_nth)
    also have "norm_cdf lib (norm_ppf lib (cdf (M ! i) (X ! r ! i))) = cdf (M ! i) (X ! r ! i)"
      using norm inv ri by simp
    also have "icdf (M ! i) (cdf (M ! i) (X ! r ! i)) = X ! r ! i" using inv ri by simp
    finally show "?X' ! r ! i = X ! r ! i" .
  qed
  with Z_to_X_eq [OF Z, of lib] show ?thesis by simp
qed

subsection \<open>Sampling and the inverse transformation\<close>

lemma unit_square_sel [simp]:
  "Marginals unit_square = [uniform01, uniform01]" "A unit_square = [[1, 0], [0, 1]]"
  by (simp_all add: unit_square_def)

lemma init_unit_square:
  "ERANataf_init example_lib [uniform01, uniform01] [[1, 0], [0, 1]] = Inr unit_square"
  by (simp add: ERANataf_init_def check_correlation_def finite_moments_def
      np_cholesky_def square_def is_matrix_def symmetric_def unit_diagonal_def
      broadcast_sub_def identity_2 frobenius_def norm_tolerance_def unit_square_def)

lemma U2X_unit_square:
  "U2X example_lib unit_square (Arr2 [[0, 1], [1 / 2, 0]]) False
     = Inr (Arr2 [[1 / 2, 3 / 4], [2 / 3, 1 / 2]], None)"
  by (simp add: U2X_def check_dimensions_def ncols_def mat_T_def col_def np_matmul_def mat_mul_def
      Z_to_X_def zeros_def set_col_def squeeze2_def uniform01_def example_cdf_def
      numeral_2_eq_2)

text \<open>
  C8.  Let U be an array of n points in d coordinates, with n at least 1, where d is
  the number of marginals.  When the generator of \<open>random\<close> returns these draws
  (in the layout of \<open>np.random.randn(d, n)\<close>, the transpose of U), \<open>random\<close> returns
  what \<open>U2X\<close> returns for U without the Jacobian, or raises the same exception.
\<close>

theorem C8_random_is_U2X_of_the_draws:
  assumes U: "is_matrix n (length (Marginals self)) U" and n: "0 < n"
  shows "then_do (random (lib\<lparr>randn := \<lambda>d' n'. mat_T U\<rparr>) self n) (\<lambda>X. Inr (X, None))
           = U2X lib self (Arr2 U) False"
proof -
  let ?d = "length (Marginals self)"
  have c: "check_dimensions ?d (Arr2 U) = Inr U"
    using U n by (rule check_dimensions_Arr2)
  have k: "length U = n" using U by (simp add: is_matrix_iff)
  show ?thesis
    by (simp add: U2X_def random_def Let_def c k Z_to_X_def then_do_def split: sum.splits)
qed

theorem C8_random_is_U2X_of_the_draws_witness:
  "then_do (random (example_lib\<lparr>randn := \<lambda>d' n'. mat_T [[0, 1], [1 / 2, 0]]\<rparr>) unit_square 2)
       (\<lambda>X. Inr (X, None))
     = Inr (Arr2 [[1 / 2, 3 / 4], [2 / 3, 1 / 2]], None :: matrix option)"
proof -
  have "then_do (random (example_lib\<lparr>randn := \<lambda>d' n'. mat_T [[0, 1], [1 / 2, 0]]\<rparr>)
                   unit_square 2) (\<lambda>X. Inr (X, None))
        = U2X example_lib unit_square (Arr2 [[0, 1], [1 / 2, 0]]) False"
    by (rule C8_random_is_U2X_of_the_draws) (simp_all add: is_matrix_def)
  then show ?thesis by (simp only: U2X_unit_square)
qed


subsection \<open>The forward transformation followed by the inverse one\<close>

lemma single_column:
  assumes "is_matrix d 1 Z"
  shows "map (\<lambda>x. [x]) (col Z 0) = Z" "map (\<lambda>j. [concat Z ! j]) [0..<d] = Z" "length (concat Z) = d"
proof -
  have l: "length Z = d" and r: "\<And>i. i < d \<Longrightarrow> length (Z ! i) = 1"
    using assms by (simp_all add: is_matrix_iff)
  have e: "\<And>i. i < d \<Longrightarrow> Z ! i = [Z ! i ! 0]"
  proof -
    fix i assume "i < d"
    then have "length (Z ! i) = 1" by (rule r)
    then show "Z ! i = [Z ! i ! 0]" by (cases "Z ! i") auto
  qed
  show 1: "map (\<lambda>x. [x]) (col Z 0) = Z"
    using l e by (auto simp: col_def intro!: nth_equalityI)
  have c: "concat Z = col Z 0"
  proof -
    have "concat Z = concat (map (\<lambda>x. [x]) (col Z 0))" by (simp only: 1)
    then show ?thesis by (simp add: concat_map_singleton)
  qed
  show "length (concat Z) = d" by (simp add: c l)
  show "map (\<lambda>j. [concat Z ! j]) [0..<d] = Z"
    unfolding c using l e by (auto simp: col_def intro!: nth_equalityI)
qed

lemma mat_T_single_row:
  "mat_T [u] = map (\<lambda>j. [u ! j]) [0..<length u]"
  by (simp add: mat_T_def ncols_def col_def)

text \<open>
  For a joint distribution of at least two marginals, none of them discrete, and an
  array of at least one point: when the library solves the triangular system for the
  standardised points, when the normal quantile function is inverted by the normal
  cumulative function on (0, 1), and when at every coordinate of every point the
  cumulative function of the marginal lies strictly between 0 and 1 and is inverted
  by its quantile function, then \<open>U2X\<close> of the result of \<open>X2U\<close> is the array of the
  points, squeezed.
\<close>

lemma X2U_U2X_roundtrip:
  assumes d: "2 \<le> length (Marginals self)"
    and X: "is_matrix n (length (Marginals self)) X" and n: "0 < n"
    and cont: "\<not> has_discrete (Marginals self)"
    and A: "is_matrix (length (Marginals self)) (length (Marginals self)) (A self)"
    and sol: "solve lib (A self) (X_to_Z lib (Marginals self) X) = Some Us"
             "is_matrix (length (Marginals self)) n Us"
             "mat_mul (A self) Us = X_to_Z lib (Marginals self) X"
    and norm: "\<forall>p. 0 < p \<and> p < 1 \<longrightarrow> norm_cdf lib (norm_ppf lib p) = p"
    and inv: "\<forall>r<n. \<forall>i<length (Marginals self).
                0 < cdf (Marginals self ! i) (X ! r ! i) \<and> cdf (Marginals self ! i) (X ! r ! i) < 1
                \<and> icdf (Marginals self ! i) (cdf (Marginals self ! i) (X ! r ! i)) = X ! r ! i"
  shows "then_do (X2U lib self (Arr2 X) False) (\<lambda>(U, J). U2X lib self U False)
           = Inr (squeeze2 X, None)"
proof -
  let ?M = "Marginals self"
  let ?d = "length ?M"
  let ?Z = "X_to_Z lib ?M X"
  have d0: "0 < ?d" using d by linarith
  have cX: "check_dimensions ?d (Arr2 X) = Inr X" using X n by (rule check_dimensions_Arr2)
  have Z: "is_matrix ?d n ?Z" using X n by (rule X_to_Z_matrix)
  have lZ: "length ?Z = ?d" using Z by (simp add: is_matrix_iff)
  have cZ: "ncols ?Z = n" using Z d0 by (rule ncols_matrix)
  have sq: "square (A self)" and lA: "length (A self) = ?d" using A by (simp_all add: square_def is_matrix_iff)
  have cA: "ncols (A self) = ?d" using A d0 by (rule ncols_matrix)
  have lUs: "length Us = ?d" using sol(2) by (simp add: is_matrix_iff)
  have cUs: "ncols Us = n" using sol(2) d0 by (rule ncols_matrix)
  have bk: "Z_to_X lib ?M ?Z n = Inr X" using X n norm inv by (rule Z_to_X_inverts)
  \<comment> \<open>what \<open>U2X\<close> does with a checked argument whose transpose is the solution\<close>
  have u2x: "U2X lib self U False = Inr (squeeze2 X, None)"
    if "check_dimensions ?d U = Inr V" "mat_T V = Us" "length V = n" for U V
    using that by (simp add: U2X_def Let_def np_matmul_def cA lUs sol(3) bk)
  show ?thesis
  proof (cases "n = 1")
    case True
    have Z1: "is_matrix ?d 1 ?Z" using Z True by simp
    have U1: "is_matrix ?d 1 Us" using sol(2) True by simp
    have sz: "squeeze2 ?Z = Arr1 (col ?Z 0)" using d lZ cZ True by (simp add: squeeze2_def)
    have s2: "solve2 lib (A self) (map (\<lambda>x. [x]) (col ?Z 0)) = Inr Us"
      by (simp add: single_column(1) [OF Z1] solve2_def sq lZ lA sol(1))
    have x2u: "X2U lib self (Arr2 X) False = Inr (Arr1 (concat Us), None)"
      using d by (simp add: X2U_def Let_def cont cX sz s2 single_column(3) [OF U1])
    have cU: "check_dimensions ?d (Arr1 (concat Us)) = Inr [concat Us]"
      using d by (simp add: check_dimensions_def ncols_def single_column(3) [OF U1])
    have tU: "mat_T [concat Us] = Us"
      by (simp add: mat_T_single_row single_column(3) [OF U1] single_column(2) [OF U1])
    show ?thesis using True by (simp add: x2u u2x [OF cU tU])
  next
    case False
    with n have n2: "2 \<le> n" by simp
    have sz: "squeeze2 ?Z = Arr2 ?Z" using d n2 lZ cZ by (simp add: squeeze2_def)
    have s2: "solve2 lib (A self) ?Z = Inr Us" by (simp add: solve2_def sq lZ lA sol(1))
    have T: "is_matrix n ?d (mat_T Us)" using sol(2) d0 by (rule mat_T_matrix)
    have lT: "length (mat_T Us) = n" using T by (simp add: is_matrix_iff)
    have cT: "ncols (mat_T Us) = ?d" using T n by (rule ncols_matrix)
    have sT: "squeeze2 (mat_T Us) = Arr2 (mat_T Us)" using d n2 by (simp add: squeeze2_def lT cT)
    have x2u: "X2U lib self (Arr2 X) False = Inr (Arr2 (mat_T Us), None)"
      by (simp add: X2U_def Let_def cont cX sz s2 sT)
    have cU: "check_dimensions ?d (Arr2 (mat_T Us)) = Inr (mat_T Us)"
      using T n by (rule check_dimensions_Arr2)
    have tU: "mat_T (mat_T Us) = Us" using sol(2) d0 n by (rule mat_T_involution)
    show ?thesis by (simp add: x2u u2x [OF cU tU lT])
  qed
qed

lemma roundtrip_example:
  "then_do (X2U example_lib unit_square (Arr2 [[3 / 10, 6 / 10]]) False)
     (\<lambda>(U, J). U2X example_lib unit_square U False)
   = Inr (Arr1 [3 / 10, 6 / 10], None)"
  by (simp add: X2U_def has_discrete_def discrete_names_def check_dimensions_def
      ncols_def X_to_Z_def zeros_def col_def squeeze2_def solve2_def square_def is_matrix_def
      numeral_2_eq_2 uniform01_def U2X_def mat_T_def np_matmul_def mat_mul_def Z_to_X_def set_col_def
      example_ppf_def example_cdf_def)

lemma init_uniform_1:
  "ERANataf_init example_lib [uniform01] [[1]] =
     Inr \<lparr>Marginals = [uniform01], Rho_X = [[1]], Rho_Z = [[1]], A = [[1]]\<rparr>"
  by (simp add: ERANataf_init_def check_correlation_def finite_moments_def
      np_cholesky_def square_def is_matrix_def symmetric_def unit_diagonal_def
      broadcast_sub_def identity_def frobenius_def norm_tolerance_def)

text \<open>
  C7 on a joint distribution of one marginal.  The standardised points form an array
  of one row; squeezed, it is a scalar for one point and a vector of n entries for n
  points, and \<open>np.linalg.solve\<close> refuses both as right-hand sides of a system of
  size 1.  So \<open>X2U\<close> raises for one point and for two, and there is nothing to give
  to \<open>U2X\<close>.
\<close>

theorem C7_one_marginal_X2U_raises:
  "then_do (ERANataf_init example_lib [uniform01] [[1]])
     (\<lambda>self. X2U example_lib self (Arr2 [[3 / 10]]) False) = Inl ValueError
   \<and> then_do (ERANataf_init example_lib [uniform01] [[1]])
     (\<lambda>self. X2U example_lib self (Arr2 [[3 / 10], [6 / 10]]) False) = Inl ValueError"
  by (simp add: init_uniform_1 X2U_def has_discrete_def discrete_names_def check_dimensions_def
      ncols_def X_to_Z_def zeros_def col_def squeeze2_def solve2_def square_def is_matrix_def)


end
